theory Spec2Isabelle
  imports Main "HOL-Library.Word" "HOL-Library.Signed_Division"
begin

unbundle bit_operations_syntax

section \<open>Data model\<close>

type_synonym byte = "8 word"

text \<open>
  Go errors. \<open>Wrapf fmt args e\<close> is \<open>fmt.Errorf(fmt, args..., e)\<close> with a \<open>%w\<close> verb
  wrapping \<open>e\<close>; \<open>Errorf fmt args\<close> is an error built without \<open>%w\<close> (also
  \<open>errors.New\<close>). The message text is kept as the format string and its arguments.
  \<open>Underlying\<close> is an error returned by the bus, \<open>Canceled\<close> and \<open>DeadlineExceeded\<close> are
  the two values of \<open>ctx.Err()\<close>, and \<open>Panic\<close> is a run-time panic.
\<close>

datatype arg = B byte | S string | V error
  and error =
    Underlying string
  | Canceled
  | DeadlineExceeded
  | Panic string
  | Errorf string "arg list"
  | Wrapf string "arg list" error

text \<open>
  What the driver does to the outside world, in order: a bus transaction
  \<open>conn.Tx(w, r)\<close>, recorded with the bytes written and \<open>len(r)\<close>, and a \<open>select\<close>
  between \<open>ctx.Done()\<close> and a timer of the given number of milliseconds.
\<close>

datatype event = Tx "byte list" nat | TimerWait nat

text \<open>
  The injected collaborators. A \<open>conn.Conn\<close> answers a transaction, given everything
  that happened before it, with an error or with the bytes it reads back; a
  \<open>context.Context\<close> decides, at each \<open>select\<close>, whether the \<open>ctx.Done()\<close> branch is
  taken (with the value of \<open>ctx.Err()\<close>) or the timer fires.
\<close>

type_synonym conn = "event list \<Rightarrow> byte list \<Rightarrow> nat \<Rightarrow> error + byte list"
type_synonym Context = "event list \<Rightarrow> error option"
type_synonym i2c_Bus = "16 word \<Rightarrow> conn"

definition chipLPS331A :: byte where "chipLPS331A = 0xbb"
definition chipLPS25H :: byte where "chipLPS25H = 0xbd"
definition chipLPS22H :: byte where "chipLPS22H = 0xb1"

text \<open>\<open>MeasurementMode\<close> is a Go \<open>int\<close> with two named values.\<close>

type_synonym MeasurementMode = int

definition OneShot :: MeasurementMode where "OneShot = 0"
definition Continuous :: MeasurementMode where "Continuous = 1"

record Opts =
  Mode :: MeasurementMode

definition DefaultOpts :: Opts where
  "DefaultOpts = \<lparr>Mode = Continuous\<rparr>"

record Regs =
  ctrl_reg1 :: byte
  ctrl_reg2 :: byte
  res_conf :: byte

record Dev =
  d :: conn
  isSPI :: bool
  name :: string
  chipType :: byte
  oneshotMode :: bool
  regs :: Regs
  initCmd :: byte

text \<open>
  \<open>physic.Temperature\<close> and \<open>physic.Pressure\<close> are \<open>int64\<close> counts of nanokelvin and
  nanopascal, with these units (package \<open>periph.io/x/conn/v3/physic\<close>, on which the
  driver is built; the repository's tests expect \<open>100C\<close> and \<open>101.3kPa\<close> in them).
\<close>

type_synonym int64 = "64 word"

definition Celsius :: int64 where "Celsius = 1000000000"
definition ZeroCelsius :: int64 where "ZeroCelsius = 273150000000"
definition Pascal :: int64 where "Pascal = 1000000000"

record SensorValues =
  Temperature :: int64
  Pressure :: int64

text \<open>Go's \<open>/\<close> on \<open>int64\<close> truncates towards zero.\<close>

definition div_int64 :: "int64 \<Rightarrow> int64 \<Rightarrow> int64" where
  "div_int64 a b = word_of_int (sint a sdiv sint b)"

section \<open>Register transport (common.go)\<close>

text \<open>
  \<open>conn.Tx(w, r)\<close>: the transaction is recorded; on success the bytes read back are
  stored in \<open>r\<close>, whose length does not change.
\<close>

definition conn_Tx ::
    "conn \<Rightarrow> byte list \<Rightarrow> byte list \<Rightarrow> event list \<Rightarrow> error option \<times> byte list \<times> event list" where
  "conn_Tx c w r log =
     (case c log w (length r) of
        Inl err \<Rightarrow> (Some err, r, log @ [Tx w (length r)])
      | Inr bs \<Rightarrow> (None, take (length r) bs @ drop (length bs) r, log @ [Tx w (length r)]))"

text \<open>The builtin \<open>copy(dst, src)\<close>.\<close>

definition copy :: "byte list \<Rightarrow> byte list \<Rightarrow> byte list" where
  "copy dst src = take (length dst) src @ drop (length src) dst"

definition readReg ::
    "Dev \<Rightarrow> byte \<Rightarrow> byte list \<Rightarrow> event list \<Rightarrow> error option \<times> byte list \<times> event list" where
  "readReg dev reg b log =
     (if isSPI dev then
        (let read = replicate (length b + 1) 0;
             write = (replicate (length read) 0)[0 := reg]
         in case conn_Tx (d dev) write read log of
              (Some err, _, log') \<Rightarrow> (Some (Wrapf ''sr: %w'' [] err), b, log')
            | (None, read', log') \<Rightarrow> (None, copy b (drop 1 read'), log'))
      else
        (case conn_Tx (d dev) [reg] b log of
           (Some err, b', log') \<Rightarrow> (Some (Wrapf ''ir: %w'' [] err), b', log')
         | (None, b', log') \<Rightarrow> (None, b', log')))"

text \<open>The loop \<open>for i := 0; i < len(b); i += 2 { b[i] &^= 0x80 }\<close>.\<close>

fun clearRW :: "byte list \<Rightarrow> byte list" where
  "clearRW [] = []"
| "clearRW [r] = [r AND NOT 0x80]"
| "clearRW (r # v # rest) = (r AND NOT 0x80) # v # clearRW rest"

text \<open>
  The diagnostic loop reads \<open>b[i+1]\<close> for every even \<open>i < len(b)\<close>, which panics on a
  slice of odd length, before the transaction.
\<close>

definition writeCommands :: "Dev \<Rightarrow> byte list \<Rightarrow> event list \<Rightarrow> error option \<times> event list" where
  "writeCommands dev b log =
     (let b' = (if isSPI dev then clearRW b else b);
          comType = (if isSPI dev then ''s'' else ''i'')
      in if odd (length b') then (Some (Panic ''index out of range''), log)
         else (case conn_Tx (d dev) b' [] log of
                 (Some err, _, log') \<Rightarrow> (Some (Wrapf ''%sw: %w'' [S comType] err), log')
               | (None, _, log') \<Rightarrow> (None, log')))"

definition ToLower :: "string \<Rightarrow> string" where
  "ToLower s = map (\<lambda>c. let n = (of_char c :: nat)
                         in if 65 \<le> n \<and> n \<le> 90 then char_of (n + 32) else c) s"

definition wrap :: "Dev \<Rightarrow> error \<Rightarrow> error" where
  "wrap dev err = Wrapf ''%s: %w'' [S (ToLower (name dev))] err"

text \<open>\<open>waitCancel\<close>; the timer is given by its duration in milliseconds.\<close>

definition waitCancel :: "Context \<Rightarrow> nat \<Rightarrow> event list \<Rightarrow> error option \<times> event list" where
  "waitCancel ctx t log =
     (case ctx log of
        Some err \<Rightarrow> (Some err, log @ [TimerWait t])
      | None \<Rightarrow> (None, log @ [TimerWait t]))"

text \<open>
  One pass through the body of the \<open>for\<close> loop of \<open>setAndCheckCtrlReg2\<close>: \<open>Inl\<close> is a
  \<open>return\<close>, \<open>Inr\<close> the state with which the loop goes round again.
\<close>

definition setAndCheckCtrlReg2_body ::
    "Context \<Rightarrow> Dev \<Rightarrow> byte \<Rightarrow> byte list \<Rightarrow> event list
      \<Rightarrow> (error option \<times> event list) + (byte list \<times> event list)" where
  "setAndCheckCtrlReg2_body ctx dev val b log =
     (case readReg dev (ctrl_reg2 (regs dev)) b log of
        (Some err, _, log') \<Rightarrow>
          Inl (Some (Wrapf ''setAndCheckCtrlReg2: failed read from CTRL_REG2(0x%x): %w''
                       [B (ctrl_reg2 (regs dev))] err), log')
      | (None, b', log') \<Rightarrow>
          if (b' ! 0) AND val = 0 then Inl (None, log')
          else (case ctx log' of
                  Some cerr \<Rightarrow>
                    Inl (Some (Wrapf ''setAndCheckCtrlReg2: %w'' [] cerr), log' @ [TimerWait 5])
                | None \<Rightarrow> Inr (b', log' @ [TimerWait 5])))"

text \<open>The \<open>for\<close> loop itself has no bound: \<open>None\<close> is a loop that never returns.\<close>

partial_function (option) setAndCheckCtrlReg2_loop ::
    "Context \<Rightarrow> Dev \<Rightarrow> byte \<Rightarrow> byte list \<Rightarrow> event list \<Rightarrow> (error option \<times> event list) option" where
  "setAndCheckCtrlReg2_loop ctx dev val b log =
     (case setAndCheckCtrlReg2_body ctx dev val b log of
        Inl r \<Rightarrow> Some r
      | Inr (b', log') \<Rightarrow> setAndCheckCtrlReg2_loop ctx dev val b' log')"

declare setAndCheckCtrlReg2_loop.simps [code]

definition setAndCheckCtrlReg2 ::
    "Context \<Rightarrow> Dev \<Rightarrow> byte \<Rightarrow> event list \<Rightarrow> (error option \<times> event list) option" where
  "setAndCheckCtrlReg2 ctx dev val log =
     (case writeCommands dev [ctrl_reg2 (regs dev), val] log of
        (Some err, log') \<Rightarrow>
          Some (Some (Wrapf
            ''setAndCheckCtrlReg2: failed to write value 0b%08b(0x%x) command CTRL_REG2(0x%x): %w''
            [B val, B val, B (ctrl_reg2 (regs dev))] err), log')
      | (None, log') \<Rightarrow> setAndCheckCtrlReg2_loop ctx dev val [0] log')"

section \<open>Chip identity, construction and initialisation (lpsensors.go)\<close>

definition ShowCtrls :: "Dev \<Rightarrow> event list \<Rightarrow> error option \<times> event list" where
  "ShowCtrls dev log =
     (case readReg dev (ctrl_reg1 (regs dev)) [0] log of
        (Some err, _, log1) \<Rightarrow>
          (Some (wrap dev (Wrapf ''ShowCtrls: failed to read CTRL_REG1(0x%x): %w''
                             [B (ctrl_reg1 (regs dev))] err)), log1)
      | (None, b1, log1) \<Rightarrow>
          (case readReg dev (ctrl_reg2 (regs dev)) b1 log1 of
             (Some err, _, log2) \<Rightarrow>
               (Some (Wrapf ''ShowCtrls: failed to read CTRL_REG2(0x%x): %w''
                        [B (ctrl_reg2 (regs dev))] err), log2)
           | (None, b2, log2) \<Rightarrow>
               if res_conf (regs dev) = 0 then (None, log2)
               else (case readReg dev (res_conf (regs dev)) b2 log2 of
                       (Some err, _, log3) \<Rightarrow>
                         (Some (wrap dev (Wrapf ''ShowCtrls: failed to read RES_CONF(0x%x): %w''
                                            [B (res_conf (regs dev))] err)), log3)
                     | (None, _, log3) \<Rightarrow> (None, log3))))"

text \<open>
  \<open>Init\<close> has a pointer receiver: the handle it may have changed is returned. A nil
  \<open>opts\<close> is dereferenced by \<open>opts.Mode\<close>.
\<close>

definition Init :: "Dev \<Rightarrow> Opts option \<Rightarrow> event list \<Rightarrow> error option \<times> Dev \<times> event list" where
  "Init dev opts log =
     (case opts of
        None \<Rightarrow> (Some (Panic ''nil pointer dereference''), dev, log)
      | Some opt \<Rightarrow>
          if Mode opt = OneShot then (None, dev\<lparr>oneshotMode := True\<rparr>, log)
          else (case writeCommands dev [ctrl_reg1 (regs dev), initCmd dev] log of
                  (Some err, log') \<Rightarrow>
                    (Some (wrap dev (Wrapf ''failed to send init command: %w'' [] err)), dev, log')
                | (None, log') \<Rightarrow> (None, dev, log')))"

text \<open>
  The \<open>switch chipType[0]\<close> of \<open>makeDev\<close>: the name and the values of \<open>RES_CONF\<close>,
  \<open>CTRL_REG1\<close>, \<open>CTRL_REG2\<close>, \<open>ODRs\<close> and \<open>PD\<close> that a case assigns; \<open>None\<close> is the
  \<open>default\<close> case.
\<close>

definition makeDev_switch :: "byte \<Rightarrow> (string \<times> byte \<times> byte \<times> byte \<times> byte \<times> byte) option" where
  "makeDev_switch c =
     (if c = chipLPS331A then Some (''LPS331A'', 0x10, 0x20, 0x21, 0b110, 1)
      else if c = chipLPS25H then Some (''LPS25H'', 0x10, 0x20, 0x21, 0b011, 1)
      else if c = chipLPS22H then Some (''LPS22H'', 0x00, 0x10, 0x11, 0b110, 0)
      else None)"

definition makeDev :: "Dev \<Rightarrow> Opts option \<Rightarrow> event list \<Rightarrow> error option \<times> Dev \<times> event list" where
  "makeDev dev opts log =
     (let opts' = (case opts of None \<Rightarrow> DefaultOpts | Some opt \<Rightarrow> opt)
      in case readReg dev 0x0F [0] log of
           (Some err, _, log1) \<Rightarrow> (Some err, dev, log1)
         | (None, chip, log1) \<Rightarrow>
             (case makeDev_switch (chip ! 0) of
                None \<Rightarrow> (Some (Errorf ''lps: unexpected chip Type %x'' [B (chip ! 0)]), dev, log1)
              | Some (nm, RES_CONF, CTRL_REG1, CTRL_REG2, ODRs, PD) \<Rightarrow>
                  (let dev1 = dev\<lparr>name := nm, chipType := chip ! 0,
                                  regs := \<lparr>ctrl_reg1 = CTRL_REG1, ctrl_reg2 = CTRL_REG2,
                                            res_conf = RES_CONF\<rparr>,
                                  initCmd := push_bit 7 PD OR push_bit 4 ODRs\<rparr>
                   in case ShowCtrls dev1 log1 of
                        (Some err, log2) \<Rightarrow> (Some err, dev1, log2)
                      | (None, log2) \<Rightarrow> Init dev1 (Some opts') log2)))"

text \<open>The zero value of \<open>Dev\<close> with the two fields the constructors set.\<close>

definition new_Dev :: "conn \<Rightarrow> bool \<Rightarrow> Dev" where
  "new_Dev c spi =
     \<lparr>d = c, isSPI = spi, name = [], chipType = 0, oneshotMode = False,
      regs = \<lparr>ctrl_reg1 = 0, ctrl_reg2 = 0, res_conf = 0\<rparr>, initCmd = 0\<rparr>"

text \<open>
  The constructors return \<open>(*Dev, error)\<close>. An \<open>i2c.Dev\<close> sends every transaction to
  its bus with its address.
\<close>

definition NewI2C ::
    "i2c_Bus \<Rightarrow> 16 word \<Rightarrow> Opts option \<Rightarrow> event list \<Rightarrow> Dev option \<times> error option \<times> event list" where
  "NewI2C b addr opts log =
     (if addr = 0x5c \<or> addr = 0x5d then
        (case makeDev (new_Dev (b addr) False) opts log of
           (Some err, _, log') \<Rightarrow> (None, Some err, log')
         | (None, dev, log') \<Rightarrow> (Some dev, None, log'))
      else (None, Some (Errorf ''lps: given address not supported by device'' []), log))"

text \<open>\<open>p\<close> is the outcome of \<open>p.Connect(10*physic.MegaHertz, spi.Mode3, 8)\<close>.\<close>

definition NewSPI ::
    "error + conn \<Rightarrow> Opts option \<Rightarrow> event list \<Rightarrow> Dev option \<times> error option \<times> event list" where
  "NewSPI p opts log =
     (case p of
        Inl err \<Rightarrow> (None, Some (Errorf ''lps: %v'' [V err]), log)
      | Inr c \<Rightarrow>
          (case makeDev (new_Dev c True) opts log of
             (Some err, _, log') \<Rightarrow> (None, Some err, log')
           | (None, dev, log') \<Rightarrow> (Some dev, None, log')))"

definition Boot :: "Context \<Rightarrow> Dev \<Rightarrow> event list \<Rightarrow> (error option \<times> event list) option" where
  "Boot ctx dev log =
     (case setAndCheckCtrlReg2 ctx dev 0b10000000 log of
        None \<Rightarrow> None
      | Some (Some err, log') \<Rightarrow> Some (Some (wrap dev err), log')
      | Some (None, log') \<Rightarrow>
          (case ctx log' of
             Some cerr \<Rightarrow> Some (Some (wrap dev cerr), log' @ [TimerWait 10])
           | None \<Rightarrow> Some (None, log' @ [TimerWait 10])))"

section \<open>Software reset\<close>

definition swResetLPS331 :: "Context \<Rightarrow> Dev \<Rightarrow> event list \<Rightarrow> error option \<times> event list" where
  "swResetLPS331 ctx dev log =
     (let reset = (0b100 :: byte)
      in case writeCommands dev [ctrl_reg2 (regs dev), reset] log of
           (Some err, log1) \<Rightarrow>
             (Some (Wrapf ''swResetLPS331: failed to write SWReset command CTRL_REG2(0x%x): %w''
                      [B (ctrl_reg2 (regs dev))] err), log1)
         | (None, log1) \<Rightarrow>
         (case waitCancel ctx 5 log1 of
           (Some err, log2) \<Rightarrow>
             (Some (Wrapf ''swResetLPS331: failed to wait process SWRESET: %w'' [] err), log2)
         | (None, log2) \<Rightarrow>
         (case writeCommands dev [ctrl_reg2 (regs dev), 0] log2 of
           (Some err, log3) \<Rightarrow>
             (Some (Wrapf ''swResetLPS331: failed to clear SWReset command CTRL_REG2(0x%x): %w''
                      [B (ctrl_reg2 (regs dev))] err), log3)
         | (None, log3) \<Rightarrow>
         (case waitCancel ctx 5 log3 of
           (Some err, log4) \<Rightarrow>
             (Some (Wrapf ''swResetLPS331: failed to wait clearing SWRESET: %w'' [] err), log4)
         | (None, log4) \<Rightarrow>
         (case readReg dev (0x28 OR 0x80) (take 5 [0, 0, 0, 0, 0]) log4 of
           (Some err, _, log5) \<Rightarrow>
             (Some (Wrapf
                ''swResetLPS331: failed to discard STATUS_REG(read PRESS/TEMP_OUT): %w'' [] err),
              log5)
         | (None, _, log5) \<Rightarrow> (None, log5))))))"

definition SWReset :: "Context \<Rightarrow> Dev \<Rightarrow> event list \<Rightarrow> (error option \<times> event list) option" where
  "SWReset ctx dev log =
     (if chipType dev = chipLPS331A then Some (swResetLPS331 ctx dev log)
      else if chipType dev = chipLPS22H \<or> chipType dev = chipLPS25H then
        (case setAndCheckCtrlReg2 ctx dev 0b100 log of
           None \<Rightarrow> None
         | Some (Some err, log') \<Rightarrow>
             Some (Some (wrap dev (Wrapf ''SWReset: failed :%w'' [] err)), log')
         | Some (None, log') \<Rightarrow> Some (None, log'))
      else Some (Some (wrap dev (Errorf ''SWReset: unknown device type:%x'' [B (chipType dev)])),
                 log))"

section \<open>Measurement (sense.go)\<close>

definition measureOneshot ::
    "Context \<Rightarrow> Dev \<Rightarrow> event list \<Rightarrow> (error option \<times> event list) option" where
  "measureOneshot ctx dev log =
     (case writeCommands dev [ctrl_reg1 (regs dev), 0] log of
        (Some err, log1) \<Rightarrow>
          Some (Some (Wrapf ''measureOneshot: failed to clear CTRL_REG1(0x%x): %w''
                        [B (ctrl_reg1 (regs dev))] err), log1)
      | (None, log1) \<Rightarrow>
          (let res =
             (if res_conf (regs dev) \<noteq> 0 then
                (let cmd = (if chipType dev = chipLPS25H then Some (0b00001111 :: byte)
                            else if chipType dev = chipLPS331A then Some 0b01111010
                            else None)
                 in case cmd of
                      None \<Rightarrow>
                        (Some (Errorf ''measureOneshot: unknown chip type: %v'' [B (chipType dev)]),
                         log1)
                    | Some cmd' \<Rightarrow>
                        (case writeCommands dev [res_conf (regs dev), cmd'] log1 of
                           (Some err, log2) \<Rightarrow>
                             (Some (Wrapf
                                ''measureOneshot: failed to write cmd 0b%08b(0x%x) command CTRL_REG2(0x%x): %w''
                                [B cmd', B cmd', B (ctrl_reg2 (regs dev))] err), log2)
                         | (None, log2) \<Rightarrow> (None, log2)))
              else (None, log1))
           in case res of
                (Some err, log2) \<Rightarrow> Some (Some err, log2)
              | (None, log2) \<Rightarrow>
                  (case writeCommands dev [ctrl_reg1 (regs dev), 0b10000100] log2 of
                     (Some err, log3) \<Rightarrow>
                       Some (Some (Wrapf
                         ''measureOneshot: failed to start ONE_SHOT command to CTRL_REG1(0x%x): %w''
                         [B (ctrl_reg1 (regs dev))] err), log3)
                   | (None, log3) \<Rightarrow>
                       (case setAndCheckCtrlReg2 ctx dev 0b1 log3 of
                          None \<Rightarrow> None
                        | Some (Some err, log4) \<Rightarrow>
                            Some (Some (Wrapf
                              ''measureOneshot: failed to set and check ONE_SHOT[0]: %w'' [] err),
                              log4)
                        | Some (None, log4) \<Rightarrow> Some (None, log4)))))"

text \<open>\<open>rawTemp := int16(datum[1])<<8 | int16(datum[0])\<close>\<close>

definition rawTemp :: "byte list \<Rightarrow> 16 word" where
  "rawTemp datum = push_bit 8 (ucast (datum ! 1)) OR ucast (datum ! 0)"

text \<open>\<open>rawPress := int32(datum[2])<<16 | int32(datum[1])<<8 | int32(datum[0])\<close>\<close>

definition rawPress :: "byte list \<Rightarrow> 32 word" where
  "rawPress datum =
     push_bit 16 (ucast (datum ! 2)) OR push_bit 8 (ucast (datum ! 1)) OR ucast (datum ! 0)"

text \<open>The \<open>switch d.chipType\<close> of \<open>sense\<close>; a Go \<open>case\<close> does not fall through.\<close>

definition sense_switch :: "Dev \<Rightarrow> 16 word \<Rightarrow> SensorValues \<Rightarrow> SensorValues" where
  "sense_switch dev rt e =
     (if chipType dev = chipLPS331A then
        e\<lparr>Temperature := ZeroCelsius + div_int64 (425 * Celsius) 10
                            + div_int64 (scast rt * Celsius) 480\<rparr>
      else if chipType dev = chipLPS22H then e
      else if chipType dev = chipLPS25H then
        e\<lparr>Temperature := ZeroCelsius + div_int64 (scast rt * Celsius) 100\<rparr>
      else e)"

text \<open>
  \<open>sense\<close> writes through the pointer \<open>e\<close>: the record it returns is what the caller's
  \<open>SensorValues\<close> holds afterwards, on every path.
\<close>

definition sense :: "Dev \<Rightarrow> SensorValues \<Rightarrow> event list \<Rightarrow> error option \<times> SensorValues \<times> event list" where
  "sense dev e log =
     (let datum = [0, 0, 0]
      in case readReg dev (0x2b OR 0x80) (take 2 datum) log of
           (Some err, _, log1) \<Rightarrow>
             (Some (Wrapf ''sense: failed to read TEMP_OUT: %w'' [] err), e, log1)
         | (None, t, log1) \<Rightarrow>
             (let datum1 = t @ drop 2 datum;
                  e1 = sense_switch dev (rawTemp datum1) e
              in case readReg dev (0x28 OR 0x80) (take 3 datum1) log1 of
                   (Some err, _, log2) \<Rightarrow>
                     (Some (Wrapf ''sense: failed to read PRESS_OUT: %w'' [] err), e1, log2)
                 | (None, p, log2) \<Rightarrow>
                     (let c = (((1000 * 1000 * 1000 * 100) div 2048) :: int64)
                      in (None, e1\<lparr>Pressure := (scast (rawPress p) * c) div 2\<rparr>, log2))))"

definition Sense ::
    "Context \<Rightarrow> Dev \<Rightarrow> SensorValues \<Rightarrow> event list
      \<Rightarrow> (error option \<times> SensorValues \<times> event list) option" where
  "Sense ctx dev e log =
     (case (if oneshotMode dev then measureOneshot ctx dev log else Some (None, log)) of
        None \<Rightarrow> None
      | Some (Some err, log1) \<Rightarrow> Some (Some (wrap dev err), e, log1)
      | Some (None, log1) \<Rightarrow>
          (case sense dev e log1 of
             (Some err, e', log2) \<Rightarrow> Some (Some (wrap dev err), e', log2)
           | (None, e', log2) \<Rightarrow> Some (None, e', log2)))"

section \<open>Vocabulary of the theorems\<close>

text \<open>
  The bus transaction by which \<open>readReg\<close> reads \<open>n\<close> bytes at \<open>reg\<close>, and the one by which
  \<open>writeCommands\<close> writes the pair \<open>(reg, v)\<close>, under the framing of the handle.
\<close>

definition read_ev :: "Dev \<Rightarrow> byte \<Rightarrow> nat \<Rightarrow> event" where
  "read_ev dev reg n = (if isSPI dev then Tx (reg # replicate n 0) (n + 1) else Tx [reg] n)"

definition write_ev :: "Dev \<Rightarrow> byte \<Rightarrow> byte \<Rightarrow> event" where
  "write_ev dev reg v = Tx [if isSPI dev then reg AND NOT 0x80 else reg, v] 0"

text \<open>
  The bus, asked after \<open>log\<close> for \<open>length bs\<close> bytes at \<open>reg\<close>, answers with the bytes
  \<open>bs\<close> (after the alignment byte, for SPI).
\<close>

definition conn_returns :: "Dev \<Rightarrow> byte \<Rightarrow> event list \<Rightarrow> byte list \<Rightarrow> bool" where
  "conn_returns dev reg log bs =
     (if isSPI dev then
        (case d dev log (reg # replicate (length bs) 0) (length bs + 1) of
           Inl _ \<Rightarrow> False
         | Inr r \<Rightarrow> length bs < length r \<and> take (length bs) (drop 1 r) = bs)
      else
        (case d dev log [reg] (length bs) of
           Inl _ \<Rightarrow> False
         | Inr r \<Rightarrow> length bs \<le> length r \<and> take (length bs) r = bs))"

text \<open>The bus accepts, after \<open>log\<close>, the write of the pair \<open>(reg, v)\<close>.\<close>

definition conn_accepts :: "Dev \<Rightarrow> byte \<Rightarrow> byte \<Rightarrow> event list \<Rightarrow> bool" where
  "conn_accepts dev reg v log =
     (case d dev log [if isSPI dev then reg AND NOT 0x80 else reg, v] 0 of
        Inl _ \<Rightarrow> False | Inr _ \<Rightarrow> True)"

text \<open>The log after \<open>k\<close> rounds of the poll loop that found the flag still set.\<close>

definition polls :: "Dev \<Rightarrow> nat \<Rightarrow> event list \<Rightarrow> event list" where
  "polls dev k log =
     log @ concat (replicate k [read_ev dev (ctrl_reg2 (regs dev)) 1, TimerWait 5])"

text \<open>The averaging-code write of the one-shot sequence, if the variant has one.\<close>

definition avg_events :: "Dev \<Rightarrow> event list" where
  "avg_events dev =
     (if res_conf (regs dev) \<noteq> 0
      then [write_ev dev (res_conf (regs dev))
              (if chipType dev = chipLPS25H then 0b00001111 else 0b01111010)]
      else [])"

text \<open>
  The first \<open>k\<close> rounds of the poll loop started at \<open>log\<close> read the bytes \<open>vs 0\<close>, ...,
  \<open>vs (k - 1)\<close>, each with a bit of \<open>val\<close> still set, and the context is not cancelled
  in the wait that follows any of them.
\<close>

definition busy_until ::
    "Context \<Rightarrow> Dev \<Rightarrow> byte \<Rightarrow> (nat \<Rightarrow> byte) \<Rightarrow> event list \<Rightarrow> nat \<Rightarrow> bool" where
  "busy_until ctx dev val vs log k \<longleftrightarrow>
     (\<forall>j<k. conn_returns dev (ctrl_reg2 (regs dev)) (polls dev j log) [vs j]
            \<and> vs j AND val \<noteq> 0
            \<and> ctx (polls dev j log @ [read_ev dev (ctrl_reg2 (regs dev)) 1]) = None)"

text \<open>The register-map invariant of the averaging-code dispatch.\<close>

definition res_conf_inv :: "Dev \<Rightarrow> bool" where
  "res_conf_inv dev \<longleftrightarrow>
     (res_conf (regs dev) \<noteq> 0 \<longrightarrow> chipType dev = chipLPS331A \<or> chipType dev = chipLPS25H)"

text \<open>The handle carries this name, chip type, register map and initial control byte.\<close>

definition selected :: "Dev \<Rightarrow> string \<Rightarrow> byte \<Rightarrow> byte \<Rightarrow> byte \<Rightarrow> byte \<Rightarrow> byte \<Rightarrow> bool" where
  "selected dev nm ct cr1 cr2 rc ic \<longleftrightarrow>
     name dev = nm \<and> chipType dev = ct \<and> ctrl_reg1 (regs dev) = cr1
     \<and> ctrl_reg2 (regs dev) = cr2 \<and> res_conf (regs dev) = rc \<and> initCmd dev = ic"

text \<open>The events of the dedicated LPS331A reset sequence.\<close>

definition swreset_events :: "Dev \<Rightarrow> event list" where
  "swreset_events dev =
     [write_ev dev (ctrl_reg2 (regs dev)) 0b100, TimerWait 5,
      write_ev dev (ctrl_reg2 (regs dev)) 0, TimerWait 5,
      read_ev dev (0x28 OR 0x80) 5]"

text \<open>The bus, asked after \<open>log\<close> for \<open>n\<close> bytes at \<open>reg\<close>, fails with \<open>cause\<close>.\<close>

definition conn_fails :: "Dev \<Rightarrow> byte \<Rightarrow> event list \<Rightarrow> nat \<Rightarrow> error \<Rightarrow> bool" where
  "conn_fails dev reg log n cause =
     (if isSPI dev then d dev log (reg # replicate n 0) (n + 1) = Inl cause
      else d dev log [reg] n = Inl cause)"

text \<open>
  The rounds of a poll loop started at \<open>log\<close> with \<open>b0\<close> in its buffer read the bytes
  \<open>vs 0\<close>, ..., \<open>vs k\<close>: each of the first \<open>k\<close> has a bit of \<open>val\<close> set and is followed by a
  wait in which the context is not cancelled, and \<open>vs k\<close> has the bits of \<open>val\<close> clear.
\<close>

definition poll_reads ::
    "Context \<Rightarrow> Dev \<Rightarrow> byte \<Rightarrow> byte \<Rightarrow> event list \<Rightarrow> nat \<Rightarrow> (nat \<Rightarrow> byte) \<Rightarrow> bool" where
  "poll_reads ctx dev val b0 log k vs \<longleftrightarrow>
     (\<forall>j\<le>k. readReg dev (ctrl_reg2 (regs dev)) [if j = 0 then b0 else vs (j - 1)] (polls dev j log)
               = (None, [vs j], polls dev j log @ [read_ev dev (ctrl_reg2 (regs dev)) 1]))
     \<and> (\<forall>j<k. vs j AND val \<noteq> 0
              \<and> ctx (polls dev j log @ [read_ev dev (ctrl_reg2 (regs dev)) 1]) = None)
     \<and> vs k AND val = 0"

text \<open>The writes of the one-shot sequence, up to and including the trigger.\<close>

definition oneshot_writes :: "Dev \<Rightarrow> event list" where
  "oneshot_writes dev =
     [write_ev dev (ctrl_reg1 (regs dev)) 0]
     @ (if res_conf (regs dev) \<noteq> 0
        then [write_ev dev (res_conf (regs dev))
                (if chipType dev = chipLPS25H then 0b00001111 else 0b01111010)]
        else [])
     @ [write_ev dev (ctrl_reg1 (regs dev)) 0b10000100]
     @ [write_ev dev (ctrl_reg2 (regs dev)) 0b1]"

abbreviation (input) rd2 :: "Dev \<Rightarrow> event" where
  "rd2 dev \<equiv> read_ev dev (ctrl_reg2 (regs dev)) 1"

abbreviation (input) rdT :: "Dev \<Rightarrow> event" where
  "rdT dev \<equiv> read_ev dev (0x2b OR 0x80) 2"

abbreviation (input) rdP :: "Dev \<Rightarrow> event" where
  "rdP dev \<equiv> read_ev dev (0x28 OR 0x80) 3"

section \<open>Test doubles\<close>

text \<open>\<open>context.Background()\<close> is never done.\<close>

definition Background :: Context where
  "Background log = None"

text \<open>A context that is cancelled once \<open>m\<close> events have happened.\<close>

definition cancelledAfter :: "nat \<Rightarrow> Context" where
  "cancelledAfter m log = (if m \<le> length log then Some Canceled else None)"

fun count_Tx :: "event list \<Rightarrow> nat" where
  "count_Tx [] = 0"
| "count_Tx (Tx w n # evs) = Suc (count_Tx evs)"
| "count_Tx (TimerWait t # evs) = count_Tx evs"

text \<open>
  \<open>i2ctest.Playback\<close>, the bus of the repository's tests: the transactions must be the
  listed ones, in order, each given by the bytes written and the bytes read back.
\<close>

definition Playback :: "(byte list \<times> byte list) list \<Rightarrow> conn" where
  "Playback ops log w n =
     (case drop (count_Tx log) ops of
        [] \<Rightarrow> Inl (Underlying ''unexpected Tx()'')
      | (W, R) # _ \<Rightarrow>
          if W = w \<and> length R = n then Inr R else Inl (Underlying ''unexpected write or read''))"

text \<open>A bus that answers every transaction with the same bytes.\<close>

definition answers :: "byte list \<Rightarrow> conn" where
  "answers bs log w n = Inr bs"

text \<open>The handle of an LPS331A on I2C, as construction in continuous mode leaves it.\<close>

definition LPS331A_dev :: "conn \<Rightarrow> Dev" where
  "LPS331A_dev c =
     \<lparr>d = c, isSPI = False, name = ''LPS331A'', chipType = chipLPS331A, oneshotMode = False,
      regs = \<lparr>ctrl_reg1 = 0x20, ctrl_reg2 = 0x21, res_conf = 0x10\<rparr>, initCmd = 0xe0\<rparr>"

text \<open>The handles of an LPS25H and of an LPS22H on I2C, as construction leaves them.\<close>

definition LPS25H_dev :: "conn \<Rightarrow> Dev" where
  "LPS25H_dev c =
     \<lparr>d = c, isSPI = False, name = ''LPS25H'', chipType = chipLPS25H, oneshotMode = False,
      regs = \<lparr>ctrl_reg1 = 0x20, ctrl_reg2 = 0x21, res_conf = 0x10\<rparr>, initCmd = 0xb0\<rparr>"

definition LPS22H_dev :: "conn \<Rightarrow> Dev" where
  "LPS22H_dev c =
     \<lparr>d = c, isSPI = False, name = ''LPS22H'', chipType = chipLPS22H, oneshotMode = False,
      regs = \<lparr>ctrl_reg1 = 0x10, ctrl_reg2 = 0x11, res_conf = 0x00\<rparr>, initCmd = 0x60\<rparr>"

text \<open>The bus of \<open>Test_LPS331A_OneShot_Measurement\<close>, with one round of polling added.\<close>

definition oneshot_ops :: "(byte list \<times> byte list) list" where
  "oneshot_ops =
     [([0x20, 0x00], []), ([0x10, 0x7a], []), ([0x20, 0x84], []), ([0x21, 0x01], []),
      ([0x21], [0x01]), ([0x21], [0x00]), ([0xab], [0xd0, 0x6b]), ([0xa8], [0x00, 0x50, 0x3f])]"

text \<open>The transactions of construction on an LPS331A, as the repository's tests script them.\<close>

definition init_LPS331AOps :: "(byte list \<times> byte list) list" where
  "init_LPS331AOps = [([0x0f], [0xbb]), ([0x20], [0xff]), ([0x21], [0xff]), ([0x10], [0xff])]"

text \<open>
  A run of the repository's measurement tests: construction at address \<open>0x5c\<close>, then
  \<open>Sense\<close> into a zero \<open>SensorValues\<close>.
\<close>

definition run_Sense ::
    "i2c_Bus \<Rightarrow> Opts option \<Rightarrow> (error option \<times> SensorValues \<times> event list) option" where
  "run_Sense b opts =
     (case NewI2C b 0x5c opts [] of
        (Some dev, _, log) \<Rightarrow> Sense Background dev \<lparr>Temperature = 0, Pressure = 0\<rparr> log
      | (None, err, log) \<Rightarrow> Some (err, \<lparr>Temperature = 0, Pressure = 0\<rparr>, log))"

section \<open>The register transport\<close>

lemma readReg_log: "snd (snd (readReg dev reg b log)) = log @ [read_ev dev reg (length b)]"
  by (cases "isSPI dev")
     (auto simp add: readReg_def read_ev_def conn_Tx_def Let_def split: sum.split)

lemma readReg_length: "length (fst (snd (readReg dev reg b log))) = length b"
  by (cases "isSPI dev")
     (auto simp add: readReg_def conn_Tx_def copy_def Let_def min_def split: sum.split)

lemma readReg_returns:
  "conn_returns dev reg log bs \<Longrightarrow> length b = length bs \<Longrightarrow>
   readReg dev reg b log = (None, bs, log @ [read_ev dev reg (length bs)])"
  by (cases "isSPI dev")
     (auto simp add: readReg_def conn_returns_def read_ev_def conn_Tx_def copy_def Let_def drop_take
      split: sum.splits)

lemma writeCommands_pair_log:
  "snd (writeCommands dev [reg, v] log) = log @ [write_ev dev reg v]"
  by (cases "isSPI dev")
     (auto simp add: writeCommands_def write_ev_def conn_Tx_def Let_def split: sum.split)

lemma writeCommands_accepts:
  "conn_accepts dev reg v log \<Longrightarrow> writeCommands dev [reg, v] log = (None, log @ [write_ev dev reg v])"
  by (cases "isSPI dev")
     (auto simp add: writeCommands_def conn_accepts_def write_ev_def conn_Tx_def Let_def split: sum.splits)

lemma clear_msb_7bit: "(reg :: byte) < 0x80 \<Longrightarrow> reg AND NOT 0x80 = reg"
proof -
  assume a: "reg < 0x80"
  have m: "reg AND mask 7 = reg" using a less_mask_eq [of reg 7] by simp
  have k: "(mask 7 :: byte) AND NOT 0x80 = mask 7" by (simp add: mask_eq_exp_minus_1)
  have "reg AND NOT 0x80 = (reg AND mask 7) AND NOT 0x80" by (simp only: m)
  also have "\<dots> = reg AND (mask 7 AND NOT 0x80)" by (simp only: and.assoc)
  also have "\<dots> = reg" by (simp only: k m)
  finally show ?thesis .
qed

lemma write_ev_7bit: "reg < 0x80 \<Longrightarrow> write_ev dev reg v = Tx [reg, v] 0"
  unfolding write_ev_def using clear_msb_7bit [of reg] by (simp only: if_cancel split: if_split)

section \<open>The poll loop\<close>

lemma polls_0: "polls dev 0 log = log"
  by (simp add: polls_def)

lemma polls_Suc_front: "polls dev (Suc k) log = polls dev k (log @ [rd2 dev, TimerWait 5])"
  by (simp add: polls_def)

lemma polls_Suc: "polls dev (Suc k) log = polls dev k log @ [rd2 dev, TimerWait 5]"
proof -
  have "concat (replicate k xs) @ xs = xs @ concat (replicate k xs)" for xs :: "event list"
    by (induction k) simp_all
  then show ?thesis by (simp add: polls_def)
qed

lemma body_Inl_ok:
  assumes "setAndCheckCtrlReg2_body ctx dev val b log = Inl (None, log')" "length b = 1"
  shows "log' = log @ [rd2 dev]"
proof -
  obtain r b' l where rr: "readReg dev (ctrl_reg2 (regs dev)) b log = (r, b', l)"
    by (cases "readReg dev (ctrl_reg2 (regs dev)) b log") auto
  from readReg_log [of dev "ctrl_reg2 (regs dev)" b log] rr assms(2)
  have "l = log @ [rd2 dev]" by simp
  with assms rr show ?thesis
    by (auto simp add: setAndCheckCtrlReg2_body_def split: option.splits if_splits)
qed

lemma body_Inr:
  assumes "setAndCheckCtrlReg2_body ctx dev val b log = Inr (b', log')" "length b = 1"
  shows "log' = log @ [rd2 dev, TimerWait 5] \<and> length b' = 1"
proof -
  obtain r b'' l where rr: "readReg dev (ctrl_reg2 (regs dev)) b log = (r, b'', l)"
    by (cases "readReg dev (ctrl_reg2 (regs dev)) b log") auto
  from readReg_log [of dev "ctrl_reg2 (regs dev)" b log] rr assms(2)
  have "l = log @ [rd2 dev]" by simp
  moreover from readReg_length [of dev "ctrl_reg2 (regs dev)" b log] rr assms(2)
  have "length b'' = 1" by simp
  ultimately show ?thesis using assms rr
    by (auto simp add: setAndCheckCtrlReg2_body_def split: option.splits if_splits)
qed

lemma body_busy:
  assumes "conn_returns dev (ctrl_reg2 (regs dev)) log [v]" "v AND val \<noteq> 0"
    "ctx (log @ [rd2 dev]) = None" "length b = 1"
  shows "setAndCheckCtrlReg2_body ctx dev val b log = Inr ([v], log @ [rd2 dev, TimerWait 5])"
  using readReg_returns [OF assms(1), of b] assms(2-)
  by (simp add: setAndCheckCtrlReg2_body_def)

lemma body_clear:
  assumes "conn_returns dev (ctrl_reg2 (regs dev)) log [v]" "v AND val = 0" "length b = 1"
  shows "setAndCheckCtrlReg2_body ctx dev val b log = Inl (None, log @ [rd2 dev])"
  using readReg_returns [OF assms(1), of b] assms(2-)
  by (simp add: setAndCheckCtrlReg2_body_def)

lemma body_cancel:
  assumes "conn_returns dev (ctrl_reg2 (regs dev)) log [v]" "v AND val \<noteq> 0"
    "ctx (log @ [rd2 dev]) = Some cerr" "length b = 1"
  shows "setAndCheckCtrlReg2_body ctx dev val b log =
           Inl (Some (Wrapf ''setAndCheckCtrlReg2: %w'' [] cerr), log @ [rd2 dev, TimerWait 5])"
  using readReg_returns [OF assms(1), of b] assms(2-)
  by (simp add: setAndCheckCtrlReg2_body_def)

lemma loop_unroll:
  assumes "busy_until ctx dev val vs log k" "length b = 1"
  shows "\<exists>b'. length b' = 1 \<and>
     setAndCheckCtrlReg2_loop ctx dev val b log = setAndCheckCtrlReg2_loop ctx dev val b' (polls dev k log)"
  using assms
proof (induction k)
  case 0
  then show ?case by (auto simp add: polls_0)
next
  case (Suc k)
  from Suc.prems have "busy_until ctx dev val vs log k" by (simp add: busy_until_def)
  with Suc obtain b' where b': "length b' = 1"
    "setAndCheckCtrlReg2_loop ctx dev val b log = setAndCheckCtrlReg2_loop ctx dev val b' (polls dev k log)"
    by blast
  from Suc.prems have k: "conn_returns dev (ctrl_reg2 (regs dev)) (polls dev k log) [vs k]" "vs k AND val \<noteq> 0"
        "ctx (polls dev k log @ [rd2 dev]) = None"
    by (simp_all add: busy_until_def)
  have "setAndCheckCtrlReg2_loop ctx dev val b' (polls dev k log)
      = setAndCheckCtrlReg2_loop ctx dev val [vs k] (polls dev (Suc k) log)"
    by (subst setAndCheckCtrlReg2_loop.simps) (simp add: body_busy [where ctx = ctx, OF k b'(1)] polls_Suc)
  with b' show ?case by (intro exI [of _ "[vs k]"]) simp
qed

lemma loop_diverges:
  assumes "\<forall>k. busy_until ctx dev val vs log k" "length b = 1"
  shows "setAndCheckCtrlReg2_loop ctx dev val b log = None"
proof (rule ccontr)
  assume "setAndCheckCtrlReg2_loop ctx dev val b log \<noteq> None"
  then obtain y where y: "setAndCheckCtrlReg2_loop ctx dev val b log = Some y" by auto
  have "ctx = ctx \<longrightarrow> dev = dev \<longrightarrow> val = val \<longrightarrow> length b = 1 \<longrightarrow> (\<forall>j. log \<noteq> polls dev j log)"
  proof (rule setAndCheckCtrlReg2_loop.raw_induct
      [where P = "\<lambda>c' dev' val' b' l' y'. c' = ctx \<longrightarrow> dev' = dev \<longrightarrow> val' = val \<longrightarrow> length b' = 1
                    \<longrightarrow> (\<forall>j. l' \<noteq> polls dev j log)", OF _ y], goal_cases)
    case (1 loop c' dev' val' b' l' y')
    show ?case
    proof (intro impI allI notI)
      fix j
      assume j: "c' = ctx" "dev' = dev" "val' = val" "length b' = 1" "l' = polls dev j log"
      from assms(1) have k: "conn_returns dev (ctrl_reg2 (regs dev)) (polls dev j log) [vs j]"
        "vs j AND val \<noteq> 0" "ctx (polls dev j log @ [rd2 dev]) = None"
        by (auto simp add: busy_until_def)
      from 1(2) have "loop ctx dev val [vs j] (polls dev (Suc j) log) = Some y'"
        by (simp add: j body_busy [where ctx = ctx, OF k j(4)] polls_Suc)
      from 1(1) [OF this] show False by auto
    qed
  qed
  with assms(2) show False by (auto simp add: polls_0 dest: spec [of _ 0])
qed

lemma loop_success_log:
  assumes "setAndCheckCtrlReg2_loop ctx dev val b log = Some (None, log')" "length b = 1"
  shows "\<exists>k. log' = polls dev k log @ [rd2 dev]"
proof -
  have "length b = 1 \<longrightarrow> fst (None :: error option, log') = None
          \<longrightarrow> (\<exists>k. snd (None :: error option, log') = polls dev k log @ [rd2 dev])"
  proof (rule setAndCheckCtrlReg2_loop.raw_induct
      [where P = "\<lambda>c' dev' val' b' l' y'. length b' = 1 \<longrightarrow> fst y' = None
                    \<longrightarrow> (\<exists>k. snd y' = polls dev' k l' @ [rd2 dev'])", OF _ assms(1)], goal_cases)
    case (1 loop ctx dev val b log y)
    show ?case
    proof (intro impI)
      assume b: "length b = 1" and ok: "fst y = None"
      show "\<exists>k. snd y = polls dev k log @ [rd2 dev]"
      proof (cases "setAndCheckCtrlReg2_body ctx dev val b log")
        case (Inl r)
        with 1(2) have "r = y" by simp
        with Inl ok have "setAndCheckCtrlReg2_body ctx dev val b log = Inl (None, snd y)"
          by (cases y) simp
        from body_Inl_ok [OF this b] show ?thesis
          by (intro exI [of _ 0]) (simp add: polls_0)
      next
        case (Inr s)
        obtain b' l where s: "s = (b', l)" by (cases s)
        from body_Inr [OF Inr [unfolded s] b] have l: "l = log @ [rd2 dev, TimerWait 5]" "length b' = 1"
          by simp_all
        from 1(2) Inr s have "loop ctx dev val b' l = Some y" by simp
        from 1(1) [OF this] l ok obtain k where "snd y = polls dev k l @ [rd2 dev]" by blast
        then show ?thesis using l(1) by (intro exI [of _ "Suc k"]) (simp add: polls_Suc_front)
      qed
    qed
  qed
  with assms(2) show ?thesis by simp
qed

lemma setAndCheckCtrlReg2_accepts:
  "conn_accepts dev (ctrl_reg2 (regs dev)) val log \<Longrightarrow>
   setAndCheckCtrlReg2 ctx dev val log =
     setAndCheckCtrlReg2_loop ctx dev val [0] (log @ [write_ev dev (ctrl_reg2 (regs dev)) val])"
  by (simp add: setAndCheckCtrlReg2_def writeCommands_accepts)


lemma setAndCheckCtrlReg2_success_log:
  assumes "setAndCheckCtrlReg2 ctx dev val log = Some (None, log')"
  shows "\<exists>k. log' = polls dev k (log @ [write_ev dev (ctrl_reg2 (regs dev)) val]) @ [rd2 dev]"
proof -
  obtain r l where w: "writeCommands dev [ctrl_reg2 (regs dev), val] log = (r, l)"
    by (cases "writeCommands dev [ctrl_reg2 (regs dev), val] log")
  with writeCommands_pair_log [of dev "ctrl_reg2 (regs dev)" val log]
  have l: "l = log @ [write_ev dev (ctrl_reg2 (regs dev)) val]" by simp
  from assms w have "r = None" "setAndCheckCtrlReg2_loop ctx dev val [0] l = Some (None, log')"
    by (auto simp add: setAndCheckCtrlReg2_def split: option.splits)
  from loop_success_log [OF this(2)] l show ?thesis by simp
qed

section \<open>Raw words and conversions\<close>

lemma uint_byte_bound: "0 \<le> uint (b :: byte) \<and> uint b < 256"
  using uint_lt2p [of b] by simp

lemma rawPress_eq_plus:
  "rawPress [b0, b1, b2] = push_bit 16 (ucast b2) + (push_bit 8 (ucast b1) + ucast b0)"
proof -
  have 1: "push_bit 8 (ucast b1 :: 32 word) AND ucast b0 = 0"
    by (rule bit_word_eqI) (auto simp add: bit_simps dest: bit_imp_le_length)
  have 2: "push_bit 16 (ucast b2 :: 32 word) AND (push_bit 8 (ucast b1) OR ucast b0) = 0"
    by (rule bit_word_eqI) (auto simp add: bit_simps dest: bit_imp_le_length)
  have nth: "[b0, b1, b2] ! 0 = b0" "[b0, b1, b2] ! 1 = b1" "[b0, b1, b2] ! 2 = b2"
    by simp_all
  show ?thesis
    by (simp only: rawPress_def nth disjunctive_add_eq_or [OF 1] disjunctive_add_eq_or [OF 2])
qed

lemma uint_ucast_byte: "uint (ucast (b :: byte) :: 32 word) = uint b"
  using uint_byte_bound [of b] by (simp add: unsigned_ucast_eq take_bit_eq_mod)

lemma rawPress_uint:
  "uint (rawPress [b0, b1, b2]) = uint b2 * 65536 + uint b1 * 256 + uint b0"
proof -
  have p8: "uint (push_bit 8 (ucast b1 :: 32 word)) = uint b1 * 256"
    using uint_byte_bound [of b1]
    by (simp add: push_bit_eq_mult uint_word_ariths uint_ucast_byte)
  have p16: "uint (push_bit 16 (ucast b2 :: 32 word)) = uint b2 * 65536"
    using uint_byte_bound [of b2]
    by (simp add: push_bit_eq_mult uint_word_ariths uint_ucast_byte)
  show ?thesis
    using uint_byte_bound [of b0] uint_byte_bound [of b1] uint_byte_bound [of b2]
    by (simp add: rawPress_eq_plus uint_word_ariths p8 p16 uint_ucast_byte)
qed

lemma rawPress_bound: "uint (rawPress [b0, b1, b2]) < 2 ^ 24"
  using uint_byte_bound [of b0] uint_byte_bound [of b1] uint_byte_bound [of b2]
  by (simp add: rawPress_uint)

lemma sint_eq_uint:
  fixes w :: "'a::len word"
  assumes "uint w < 2 ^ (LENGTH('a) - Suc 0)"
  shows "sint w = uint w"
proof -
  have "- (2 ^ (LENGTH('a) - Suc 0)) \<le> (0 :: int)" by simp
  also have "0 \<le> uint w" by simp
  finally have "- (2 ^ (LENGTH('a) - Suc 0)) \<le> uint w" .
  with assms show ?thesis
    by (simp only: sint_uint signed_take_bit_int_eq_self)
qed

lemma pressure_conv:
  fixes x :: "32 word"
  assumes "uint x < 2 ^ 24"
  shows "sint (((scast x :: int64) * (((1000 * 1000 * 1000 * 100) div 2048) :: int64)) div 2)
           = (uint x * 10 ^ 11) div 4096"
proof -
  have sx: "sint x = uint x"
    using assms by (intro sint_eq_uint) simp
  have c: "(((1000 * 1000 * 1000 * 100) div 2048) :: int64) = 48828125" by simp
  have sc: "(scast x :: int64) = ucast x"
    by (simp add: scast_eq sx)
  have ux: "uint (ucast x :: int64) = uint x"
    using assms by (simp add: unsigned_ucast_eq take_bit_eq_mod)
  have u: "uint ((ucast x :: int64) * 48828125) = uint x * 48828125"
    using assms by (simp add: uint_word_ariths ux)
  have d: "uint (((scast x :: int64) * 48828125) div 2) = (uint x * 48828125) div 2"
    by (simp add: uint_div sc u)
  have "(uint x * 48828125) div 2 < 2 ^ 63"
    using assms by auto
  with d have "sint (((scast x :: int64) * 48828125) div 2) = uint (((scast x :: int64) * 48828125) div 2)"
    by (intro sint_eq_uint) simp
  moreover have "(uint x * 48828125) div 2 = (uint x * 10 ^ 11) div 4096"
  proof -
    have "(uint x * 10 ^ 11) = (uint x * 48828125) * 2048" by simp
    then show ?thesis by simp
  qed
  ultimately show ?thesis by (simp only: c d)
qed

section \<open>Measurement, reset and construction\<close>

lemma sense_switch_Pressure: "Pressure (sense_switch dev rt e) = Pressure e"
  by (simp add: sense_switch_def)

lemma sense_cases:
  obtains (temp_fails) err where
      "sense dev e log = (Some (Wrapf ''sense: failed to read TEMP_OUT: %w'' [] err), e, log @ [rdT dev])"
  | (press_fails) t err where "length t = 2"
      "readReg dev (0x2b OR 0x80) [0, 0] log = (None, t, log @ [rdT dev])"
      "sense dev e log = (Some (Wrapf ''sense: failed to read PRESS_OUT: %w'' [] err),
          sense_switch dev (rawTemp (t @ [0])) e, log @ [rdT dev, rdP dev])"
  | (ok) t p where "length t = 2" "length p = 3"
      "readReg dev (0x2b OR 0x80) [0, 0] log = (None, t, log @ [rdT dev])"
      "readReg dev (0x28 OR 0x80) (t @ [0]) (log @ [rdT dev]) = (None, p, log @ [rdT dev, rdP dev])"
      "sense dev e log = (None,
          (sense_switch dev (rawTemp (t @ [0])) e)\<lparr>Pressure :=
             (scast (rawPress p) * (((1000 * 1000 * 1000 * 100) div 2048) :: int64)) div 2\<rparr>,
          log @ [rdT dev, rdP dev])"
proof -
  obtain r1 t l1 where r1: "readReg dev (0x2b OR 0x80) [0, 0] log = (r1, t, l1)"
    by (cases "readReg dev (0x2b OR 0x80) [0, 0] log")
  from readReg_log [of dev "0x2b OR 0x80" "[0, 0]" log] readReg_length [of dev "0x2b OR 0x80" "[0, 0]" log] r1
  have l1: "l1 = log @ [rdT dev]" and t: "length t = 2" by (simp_all add: numeral_2_eq_2)
  obtain r2 p l2 where r2: "readReg dev (0x28 OR 0x80) (t @ [0]) l1 = (r2, p, l2)"
    by (cases "readReg dev (0x28 OR 0x80) (t @ [0]) l1")
  from readReg_log [of dev "0x28 OR 0x80" "t @ [0]" l1] readReg_length [of dev "0x28 OR 0x80" "t @ [0]" l1] r2 t
  have l2: "l2 = log @ [rdT dev, rdP dev]" and p: "length p = 3" by (simp_all add: l1 numeral_3_eq_3)
  show ?thesis
  proof (cases r1)
    case (Some err)
    with r1 l1 show ?thesis
      by (intro temp_fails [of err]) (simp add: sense_def)
  next
    case None
    note n1 = this
    show ?thesis
    proof (cases r2)
      case (Some err)
      with r1 r2 n1 l1 l2 t show ?thesis
        by (intro press_fails [of t err]) (simp_all add: sense_def Let_def)
    next
      case None
      with r1 r2 n1 l1 l2 t p show ?thesis
        by (intro ok [of t p]) (simp_all add: sense_def Let_def)
    qed
  qed
qed

lemma swResetLPS331_success_log:
  assumes "swResetLPS331 ctx dev log = (None, log')"
  shows "log' = log @ [write_ev dev (ctrl_reg2 (regs dev)) 0b100, TimerWait 5, write_ev dev (ctrl_reg2 (regs dev)) 0, TimerWait 5,
                       read_ev dev (0x28 OR 0x80) 5]"
proof -
  obtain r1 l1 where w1: "writeCommands dev [ctrl_reg2 (regs dev), 0b100] log = (r1, l1)"
    by (cases "writeCommands dev [ctrl_reg2 (regs dev), 0b100] log")
  with writeCommands_pair_log [of dev "ctrl_reg2 (regs dev)" "0b100" log]
  have l1: "l1 = log @ [write_ev dev (ctrl_reg2 (regs dev)) 0b100]" by simp
  obtain r3 l3 where w3: "writeCommands dev [ctrl_reg2 (regs dev), 0] (l1 @ [TimerWait 5]) = (r3, l3)"
    by (cases "writeCommands dev [ctrl_reg2 (regs dev), 0] (l1 @ [TimerWait 5])")
  with writeCommands_pair_log [of dev "ctrl_reg2 (regs dev)" 0 "l1 @ [TimerWait 5]"]
  have l3: "l3 = l1 @ [TimerWait 5, write_ev dev (ctrl_reg2 (regs dev)) 0]" by simp
  obtain r5 b5 l5 where w5: "readReg dev (0x28 OR 0x80) [0, 0, 0, 0, 0] (l3 @ [TimerWait 5]) = (r5, b5, l5)"
    by (cases "readReg dev (0x28 OR 0x80) [0, 0, 0, 0, 0] (l3 @ [TimerWait 5])")
  with readReg_log [of dev "0x28 OR 0x80" "[0, 0, 0, 0, 0]" "l3 @ [TimerWait 5]"]
  have l5: "l5 = l3 @ [TimerWait 5, read_ev dev (0x28 OR 0x80) 5]" by (simp add: eval_nat_numeral)
  from assms w1 w3 w5 have "log' = l5"
    by (auto simp add: swResetLPS331_def waitCancel_def Let_def split: option.splits)
  then show ?thesis by (simp add: l5 l3 l1)
qed

lemma swResetLPS331_succeeds:
  assumes "conn_accepts dev (ctrl_reg2 (regs dev)) 0b100 log"
    and "ctx (log @ [write_ev dev (ctrl_reg2 (regs dev)) 0b100]) = None"
    and "conn_accepts dev (ctrl_reg2 (regs dev)) 0 (log @ [write_ev dev (ctrl_reg2 (regs dev)) 0b100, TimerWait 5])"
    and "ctx (log @ [write_ev dev (ctrl_reg2 (regs dev)) 0b100, TimerWait 5, write_ev dev (ctrl_reg2 (regs dev)) 0]) = None"
    and "conn_returns dev (0x28 OR 0x80)
           (log @ [write_ev dev (ctrl_reg2 (regs dev)) 0b100, TimerWait 5, write_ev dev (ctrl_reg2 (regs dev)) 0, TimerWait 5]) bs"
    and "length bs = 5"
  shows "swResetLPS331 ctx dev log
           = (None, log @ [write_ev dev (ctrl_reg2 (regs dev)) 0b100, TimerWait 5, write_ev dev (ctrl_reg2 (regs dev)) 0,
                           TimerWait 5, read_ev dev (0x28 OR 0x80) 5])"
  using writeCommands_accepts [OF assms(1)] writeCommands_accepts [OF assms(3)]
    readReg_returns [OF assms(5), of "[0, 0, 0, 0, 0]"] assms(2,4,6)
  by (simp add: swResetLPS331_def waitCancel_def Let_def eval_nat_numeral)


lemma take_swreset_events:
  "take 1 (swreset_events dev) = [write_ev dev (ctrl_reg2 (regs dev)) 0b100]"
  "take 2 (swreset_events dev) = [write_ev dev (ctrl_reg2 (regs dev)) 0b100, TimerWait 5]"
  "take 3 (swreset_events dev) = [write_ev dev (ctrl_reg2 (regs dev)) 0b100, TimerWait 5,
      write_ev dev (ctrl_reg2 (regs dev)) 0]"
  "take 4 (swreset_events dev) = [write_ev dev (ctrl_reg2 (regs dev)) 0b100, TimerWait 5,
      write_ev dev (ctrl_reg2 (regs dev)) 0, TimerWait 5]"
  by (simp_all add: swreset_events_def eval_nat_numeral)

lemma swResetLPS331_cancelled_1:
  assumes "conn_accepts dev (ctrl_reg2 (regs dev)) 0b100 log"
    and "ctx (log @ [write_ev dev (ctrl_reg2 (regs dev)) 0b100]) = Some cerr"
  shows "swResetLPS331 ctx dev log
           = (Some (Wrapf ''swResetLPS331: failed to wait process SWRESET: %w'' [] cerr),
              log @ [write_ev dev (ctrl_reg2 (regs dev)) 0b100, TimerWait 5])"
  using writeCommands_accepts [OF assms(1)] assms(2)
  by (simp add: swResetLPS331_def waitCancel_def Let_def)

lemma swResetLPS331_cancelled_2:
  assumes "conn_accepts dev (ctrl_reg2 (regs dev)) 0b100 log"
    and "ctx (log @ [write_ev dev (ctrl_reg2 (regs dev)) 0b100]) = None"
    and "conn_accepts dev (ctrl_reg2 (regs dev)) 0
           (log @ [write_ev dev (ctrl_reg2 (regs dev)) 0b100, TimerWait 5])"
    and "ctx (log @ [write_ev dev (ctrl_reg2 (regs dev)) 0b100, TimerWait 5,
                     write_ev dev (ctrl_reg2 (regs dev)) 0]) = Some cerr"
  shows "swResetLPS331 ctx dev log
           = (Some (Wrapf ''swResetLPS331: failed to wait clearing SWRESET: %w'' [] cerr),
              log @ [write_ev dev (ctrl_reg2 (regs dev)) 0b100, TimerWait 5,
                     write_ev dev (ctrl_reg2 (regs dev)) 0, TimerWait 5])"
  using writeCommands_accepts [OF assms(1)] writeCommands_accepts [OF assms(3)] assms(2,4)
  by (simp add: swResetLPS331_def waitCancel_def Let_def)

lemma sense_temperature:
  assumes "conn_returns dev (0x2b OR 0x80) log [t0, t1]"
    and "sense dev e log = (None, e', log')"
  shows "Temperature e' =
           (if chipType dev = chipLPS331A
            then ZeroCelsius + 42500000000 + div_int64 (scast (rawTemp [t0, t1]) * Celsius) 480
            else if chipType dev = chipLPS25H
            then ZeroCelsius + div_int64 (scast (rawTemp [t0, t1]) * Celsius) 100
            else Temperature e)"
proof -
  have r1: "readReg dev (0x2b OR 0x80) [0, 0] log = (None, [t0, t1], log @ [rdT dev])"
    using readReg_returns [OF assms(1), of "[0, 0]"] by (simp add: numeral_2_eq_2)
  have rt: "rawTemp ([t0, t1] @ [0]) = rawTemp [t0, t1]"
    by (simp add: rawTemp_def)
  have c: "div_int64 (425 * Celsius) 10 = 42500000000"
    by (simp add: div_int64_def Celsius_def)
  show ?thesis
  proof (rule sense_cases [of dev e log], goal_cases)
    case (1 err)
    with assms(2) show ?case by simp
  next
    case (2 t err)
    with assms(2) show ?case by simp
  next
    case (3 t p)
    with r1 have "t = [t0, t1]" by simp
    with 3 assms(2) rt c show ?case
      by (auto simp add: sense_switch_def chipLPS331A_def chipLPS25H_def chipLPS22H_def)
  qed
qed

lemma temperature_LPS331A_example:
  "rawTemp [0xd0, 0x6b] = 0x6bd0 \<and> sint (0x6bd0 :: 16 word) = 27600
   \<and> ZeroCelsius + 42500000000 + div_int64 (scast (0x6bd0 :: 16 word) * Celsius) 480
       = ZeroCelsius + 100 * Celsius"
  by (simp add: rawTemp_def div_int64_def Celsius_def ZeroCelsius_def)

lemma Init_fields:
  "fst (snd (Init dev opts log)) = dev \<or> fst (snd (Init dev opts log)) = dev\<lparr>oneshotMode := True\<rparr>"
  by (cases "writeCommands dev [ctrl_reg1 (regs dev), initCmd dev] log")
     (auto simp add: Init_def split: option.splits)

lemma makeDev_unsupported:
  assumes "conn_returns dev 0x0F log [c]" "makeDev_switch c = None"
  shows "makeDev dev opts log
           = (Some (Errorf ''lps: unexpected chip Type %x'' [B c]), dev, log @ [read_ev dev 0x0F 1])"
  using readReg_returns [OF assms(1), of "[0]"] assms(2)
  by (simp add: makeDev_def)

lemma makeDev_supported:
  assumes "conn_returns dev 0x0F log [c]"
    "makeDev_switch c = Some (nm, RES_CONF, CTRL_REG1, CTRL_REG2, ODRs, PD)"
  shows "selected (fst (snd (makeDev dev opts log))) nm c CTRL_REG1 CTRL_REG2 RES_CONF
           (push_bit 7 PD OR push_bit 4 ODRs)"
proof -
  define dev1 where "dev1 = dev\<lparr>name := nm, chipType := c,
                                  regs := \<lparr>ctrl_reg1 = CTRL_REG1, ctrl_reg2 = CTRL_REG2,
                                            res_conf = RES_CONF\<rparr>,
                                  initCmd := push_bit 7 PD OR push_bit 4 ODRs\<rparr>"
  obtain r2 l2 where s: "ShowCtrls dev1 (log @ [read_ev dev 0x0F 1]) = (r2, l2)"
    by (cases "ShowCtrls dev1 (log @ [read_ev dev 0x0F 1])")
  define o' where "o' = (case opts of None \<Rightarrow> DefaultOpts | Some opt \<Rightarrow> opt)"
  have "fst (snd (makeDev dev opts log)) = dev1 \<or> fst (snd (makeDev dev opts log)) = dev1\<lparr>oneshotMode := True\<rparr>"
    using readReg_returns [OF assms(1), of "[0]"] assms(2) s Init_fields [of dev1 "Some o'" l2]
    by (cases r2) (auto simp add: makeDev_def dev1_def [symmetric] o'_def [symmetric])
  then show ?thesis
    by (auto simp add: selected_def dev1_def)
qed

lemma makeDev_switch_None_iff:
  "makeDev_switch c = None \<longleftrightarrow> c \<noteq> 0xbb \<and> c \<noteq> 0xbd \<and> c \<noteq> 0xb1"
  by (simp add: makeDev_switch_def chipLPS331A_def chipLPS25H_def chipLPS22H_def)

lemma Init_res_conf_inv: "res_conf_inv dev \<Longrightarrow> res_conf_inv (fst (snd (Init dev opts log)))"
  using Init_fields [of dev opts log] by (auto simp add: res_conf_inv_def)

lemma makeDev_res_conf_inv:
  assumes "makeDev dev0 opts log = (None, dev, log')"
  shows "res_conf_inv dev"
proof -
  obtain r1 chip l1 where r: "readReg dev0 0x0F [0] log = (r1, chip, l1)"
    by (cases "readReg dev0 0x0F [0] log")
  with assms have r1: "r1 = None" by (auto simp add: makeDev_def split: option.splits)
  from assms r r1 obtain nm RES_CONF CTRL_REG1 CTRL_REG2 ODRs PD where
    s: "makeDev_switch (chip ! 0) = Some (nm, RES_CONF, CTRL_REG1, CTRL_REG2, ODRs, PD)"
    by (cases "makeDev_switch (chip ! 0)") (auto simp add: makeDev_def)
  define dev1 where "dev1 = dev0\<lparr>name := nm, chipType := chip ! 0,
                                  regs := \<lparr>ctrl_reg1 = CTRL_REG1, ctrl_reg2 = CTRL_REG2,
                                            res_conf = RES_CONF\<rparr>,
                                  initCmd := push_bit 7 PD OR push_bit 4 ODRs\<rparr>"
  have i1: "res_conf_inv dev1"
    using s by (auto simp add: res_conf_inv_def dev1_def makeDev_switch_def split: if_splits)
  obtain r2 l2 where sc: "ShowCtrls dev1 l1 = (r2, l2)" by (cases "ShowCtrls dev1 l1")
  define o' where "o' = (case opts of None \<Rightarrow> DefaultOpts | Some opt \<Rightarrow> opt)"
  from assms r r1 s sc have "dev = fst (snd (Init dev1 (Some o') l2))"
    by (cases r2) (auto simp add: makeDev_def dev1_def [symmetric] o'_def [symmetric])
  with Init_res_conf_inv [OF i1] show ?thesis by simp
qed

lemma measureOneshot_not_unknown:
  assumes "res_conf_inv dev"
  shows "measureOneshot ctx dev log \<noteq> Some (Some (Errorf ''measureOneshot: unknown chip type: %v'' args), l)"
proof -
  obtain r1 l1 where w1: "writeCommands dev [ctrl_reg1 (regs dev), 0] log = (r1, l1)"
    by (cases "writeCommands dev [ctrl_reg1 (regs dev), 0] log")
  show ?thesis
  proof (cases "res_conf (regs dev) = 0")
    case True
    then show ?thesis using w1
      by (auto simp add: measureOneshot_def Let_def split: option.splits prod.splits)
  next
    case False
    with assms have "chipType dev = chipLPS331A \<or> chipType dev = chipLPS25H"
      by (simp add: res_conf_inv_def)
    then show ?thesis using w1 False
      by (auto simp add: measureOneshot_def Let_def split: option.splits prod.splits)
  qed
qed

section \<open>What a call has read when it returns\<close>

lemma readReg_fails:
  assumes "conn_fails dev reg log (length b) cause"
  shows "\<exists>b'. readReg dev reg b log
           = (Some (Wrapf (if isSPI dev then ''sr: %w'' else ''ir: %w'') [] cause), b',
              log @ [read_ev dev reg (length b)])"
  using assms
  by (cases "isSPI dev")
     (auto simp add: readReg_def conn_fails_def read_ev_def conn_Tx_def Let_def)

lemma rawTemp_append: "length t = 2 \<Longrightarrow> rawTemp (t @ bs) = rawTemp t"
  by (simp add: rawTemp_def nth_append)

lemma measureOneshot_error_not_PRESS:
  assumes "measureOneshot ctx dev log = Some (Some err, l)"
  shows "err \<noteq> Wrapf ''sense: failed to read PRESS_OUT: %w'' [] cause"
  using assms
  by (auto simp add: measureOneshot_def Let_def split: option.splits prod.splits if_splits)

lemma body_Inl_detail:
  assumes "setAndCheckCtrlReg2_body ctx dev val [b0] log = Inl (None, log')"
  shows "\<exists>v. readReg dev (ctrl_reg2 (regs dev)) [b0] log = (None, [v], log @ [rd2 dev])
             \<and> v AND val = 0 \<and> log' = log @ [rd2 dev]"
proof -
  obtain r b'' l where rr: "readReg dev (ctrl_reg2 (regs dev)) [b0] log = (r, b'', l)"
    by (cases "readReg dev (ctrl_reg2 (regs dev)) [b0] log") auto
  from readReg_log [of dev "ctrl_reg2 (regs dev)" "[b0]" log] rr
  have l: "l = log @ [rd2 dev]" by simp
  from readReg_length [of dev "ctrl_reg2 (regs dev)" "[b0]" log] rr
  have "length b'' = 1" by simp
  then obtain v where v: "b'' = [v]" by (cases b'') auto
  from assms rr l v show ?thesis
    by (auto simp add: setAndCheckCtrlReg2_body_def split: option.splits if_splits)
qed

lemma body_Inr_detail:
  assumes "setAndCheckCtrlReg2_body ctx dev val [b0] log = Inr (b', log')"
  shows "\<exists>v. readReg dev (ctrl_reg2 (regs dev)) [b0] log = (None, [v], log @ [rd2 dev])
             \<and> v AND val \<noteq> 0 \<and> ctx (log @ [rd2 dev]) = None
             \<and> b' = [v] \<and> log' = log @ [rd2 dev, TimerWait 5]"
proof -
  obtain r b'' l where rr: "readReg dev (ctrl_reg2 (regs dev)) [b0] log = (r, b'', l)"
    by (cases "readReg dev (ctrl_reg2 (regs dev)) [b0] log") auto
  from readReg_log [of dev "ctrl_reg2 (regs dev)" "[b0]" log] rr
  have l: "l = log @ [rd2 dev]" by simp
  from readReg_length [of dev "ctrl_reg2 (regs dev)" "[b0]" log] rr
  have "length b'' = 1" by simp
  then obtain v where v: "b'' = [v]" by (cases b'') auto
  from assms rr l v show ?thesis
    by (auto simp add: setAndCheckCtrlReg2_body_def split: option.splits if_splits)
qed

lemma poll_reads_0:
  assumes "readReg dev (ctrl_reg2 (regs dev)) [b0] log = (None, [v], log @ [rd2 dev])" "v AND val = 0"
  shows "poll_reads ctx dev val b0 log 0 (\<lambda>_. v)"
  using assms by (simp add: poll_reads_def polls_0)

lemma poll_reads_Suc:
  assumes r: "readReg dev (ctrl_reg2 (regs dev)) [b0] log = (None, [v], log @ [rd2 dev])"
    and v: "v AND val \<noteq> 0" and c: "ctx (log @ [rd2 dev]) = None"
    and p: "poll_reads ctx dev val v (log @ [rd2 dev, TimerWait 5]) k vs"
  shows "poll_reads ctx dev val b0 log (Suc k) (\<lambda>j. case j of 0 \<Rightarrow> v | Suc i \<Rightarrow> vs i)"
proof -
  let ?l = "log @ [rd2 dev, TimerWait 5]"
  let ?vs = "\<lambda>j. case j of 0 \<Rightarrow> v | Suc i \<Rightarrow> vs i"
  have ps: "polls dev (Suc i) log = polls dev i ?l" for i
    by (simp add: polls_Suc_front)
  have 1: "readReg dev (ctrl_reg2 (regs dev)) [if j = 0 then b0 else ?vs (j - 1)] (polls dev j log)
               = (None, [?vs j], polls dev j log @ [rd2 dev])" if "j \<le> Suc k" for j
  proof (cases j)
    case 0
    with r show ?thesis by (simp add: polls_0)
  next
    case (Suc i)
    with that have "i \<le> k" by simp
    with p have "readReg dev (ctrl_reg2 (regs dev)) [if i = 0 then v else vs (i - 1)] (polls dev i ?l)
               = (None, [vs i], polls dev i ?l @ [rd2 dev])"
      by (simp add: poll_reads_def)
    moreover have "(if i = 0 then v else vs (i - 1)) = ?vs i"
      by (cases i) simp_all
    ultimately show ?thesis using Suc by (simp add: ps)
  qed
  have 2: "?vs j AND val \<noteq> 0 \<and> ctx (polls dev j log @ [rd2 dev]) = None" if "j < Suc k" for j
  proof (cases j)
    case 0
    with v c show ?thesis by (simp add: polls_0)
  next
    case (Suc i)
    with that have "i < k" by simp
    with p have "vs i AND val \<noteq> 0 \<and> ctx (polls dev i ?l @ [rd2 dev]) = None"
      by (simp add: poll_reads_def)
    with Suc show ?thesis by (simp add: ps)
  qed
  from p have 3: "?vs (Suc k) AND val = 0" by (simp add: poll_reads_def)
  from 1 2 3 show ?thesis unfolding poll_reads_def by blast
qed

lemma loop_success_reads:
  assumes "setAndCheckCtrlReg2_loop ctx dev val [b0] log = Some (None, log')"
  shows "\<exists>k vs. log' = polls dev k log @ [rd2 dev] \<and> poll_reads ctx dev val b0 log k vs"
proof -
  have "\<forall>c0. [b0] = [c0] \<longrightarrow> fst (None :: error option, log') = None
          \<longrightarrow> (\<exists>k vs. snd (None :: error option, log') = polls dev k log @ [rd2 dev]
                       \<and> poll_reads ctx dev val c0 log k vs)"
  proof (rule setAndCheckCtrlReg2_loop.raw_induct
      [where P = "\<lambda>c' dev' val' b' l' y'. \<forall>c0. b' = [c0] \<longrightarrow> fst y' = None
                    \<longrightarrow> (\<exists>k vs. snd y' = polls dev' k l' @ [rd2 dev']
                                 \<and> poll_reads c' dev' val' c0 l' k vs)", OF _ assms], goal_cases)
    case (1 loop ctx dev val b log y)
    show ?case
    proof (intro allI impI)
      fix c0
      assume b: "b = [c0]" and ok: "fst y = None"
      show "\<exists>k vs. snd y = polls dev k log @ [rd2 dev] \<and> poll_reads ctx dev val c0 log k vs"
      proof (cases "setAndCheckCtrlReg2_body ctx dev val b log")
        case (Inl r)
        with 1(2) have "r = y" by simp
        with Inl ok b have "setAndCheckCtrlReg2_body ctx dev val [c0] log = Inl (None, snd y)"
          by (cases y) simp
        from body_Inl_detail [OF this] obtain v where
          v: "readReg dev (ctrl_reg2 (regs dev)) [c0] log = (None, [v], log @ [rd2 dev])"
            "v AND val = 0" "snd y = log @ [rd2 dev]"
          by blast
        from poll_reads_0 [OF v(1,2), of ctx] v(3) show ?thesis
          by (intro exI [of _ 0] exI [of _ "\<lambda>_. v"]) (simp add: polls_0)
      next
        case (Inr s)
        obtain b' l where s: "s = (b', l)" by (cases s)
        from Inr s b have "setAndCheckCtrlReg2_body ctx dev val [c0] log = Inr (b', l)" by simp
        from body_Inr_detail [OF this] obtain v where
          v: "readReg dev (ctrl_reg2 (regs dev)) [c0] log = (None, [v], log @ [rd2 dev])"
            "v AND val \<noteq> 0" "ctx (log @ [rd2 dev]) = None" "b' = [v]"
            "l = log @ [rd2 dev, TimerWait 5]"
          by blast
        from 1(2) Inr s have "loop ctx dev val b' l = Some y" by simp
        from 1(1) [OF this, rule_format, OF v(4) ok] obtain k vs where
          k: "snd y = polls dev k l @ [rd2 dev]" "poll_reads ctx dev val v l k vs"
          by blast
        from poll_reads_Suc [OF v(1,2,3) k(2) [unfolded v(5)]] k(1) v(5)
        show ?thesis
          by (intro exI [of _ "Suc k"] exI [of _ "\<lambda>j. case j of 0 \<Rightarrow> v | Suc i \<Rightarrow> vs i"])
             (simp add: polls_Suc_front)
      qed
    qed
  qed
  then show ?thesis by simp
qed

lemma setAndCheckCtrlReg2_success_reads:
  assumes "setAndCheckCtrlReg2 ctx dev val log = Some (None, log')"
  shows "\<exists>k vs. log' = polls dev k (log @ [write_ev dev (ctrl_reg2 (regs dev)) val]) @ [rd2 dev]
            \<and> poll_reads ctx dev val 0 (log @ [write_ev dev (ctrl_reg2 (regs dev)) val]) k vs"
proof -
  obtain r l where w: "writeCommands dev [ctrl_reg2 (regs dev), val] log = (r, l)"
    by (cases "writeCommands dev [ctrl_reg2 (regs dev), val] log")
  with writeCommands_pair_log [of dev "ctrl_reg2 (regs dev)" val log]
  have l: "l = log @ [write_ev dev (ctrl_reg2 (regs dev)) val]" by simp
  from assms w have "setAndCheckCtrlReg2_loop ctx dev val [0] l = Some (None, log')"
    by (auto simp add: setAndCheckCtrlReg2_def split: option.splits)
  from loop_success_reads [OF this] l show ?thesis by simp
qed

lemma setAndCheckCtrlReg2_returns:
  assumes "conn_accepts dev (ctrl_reg2 (regs dev)) val log"
    and "busy_until ctx dev val vs (log @ [write_ev dev (ctrl_reg2 (regs dev)) val]) k"
    and "conn_returns dev (ctrl_reg2 (regs dev))
           (polls dev k (log @ [write_ev dev (ctrl_reg2 (regs dev)) val])) [vs k]"
    and "vs k AND val = 0"
  shows "setAndCheckCtrlReg2 ctx dev val log
           = Some (None, polls dev k (log @ [write_ev dev (ctrl_reg2 (regs dev)) val]) @ [rd2 dev])"
proof -
  let ?l = "log @ [write_ev dev (ctrl_reg2 (regs dev)) val]"
  obtain b' where b': "length b' = 1"
    "setAndCheckCtrlReg2_loop ctx dev val [0] ?l
       = setAndCheckCtrlReg2_loop ctx dev val b' (polls dev k ?l)"
    using loop_unroll [OF assms(2), of "[0]"] by auto
  have "setAndCheckCtrlReg2_body ctx dev val b' (polls dev k ?l)
      = Inl (None, polls dev k ?l @ [rd2 dev])"
    using body_clear [where ctx = ctx, OF assms(3,4) b'(1)] .
  then have "setAndCheckCtrlReg2_loop ctx dev val b' (polls dev k ?l)
      = Some (None, polls dev k ?l @ [rd2 dev])"
    by (subst setAndCheckCtrlReg2_loop.simps) simp
  with b'(2) show ?thesis
    by (simp add: setAndCheckCtrlReg2_accepts [OF assms(1)])
qed

lemma oneshot_writes_avg:
  "oneshot_writes dev = [write_ev dev (ctrl_reg1 (regs dev)) 0] @ avg_events dev
     @ [write_ev dev (ctrl_reg1 (regs dev)) 0b10000100, write_ev dev (ctrl_reg2 (regs dev)) 0b1]"
  by (simp add: oneshot_writes_def avg_events_def)

lemma butlast_oneshot_writes:
  "butlast (oneshot_writes dev) = [write_ev dev (ctrl_reg1 (regs dev)) 0] @ avg_events dev
     @ [write_ev dev (ctrl_reg1 (regs dev)) 0b10000100]"
  "butlast (butlast (oneshot_writes dev)) = [write_ev dev (ctrl_reg1 (regs dev)) 0] @ avg_events dev"
  by (simp_all add: oneshot_writes_avg butlast_append avg_events_def)

lemma measureOneshot_success_reads:
  assumes "measureOneshot ctx dev log = Some (None, log')"
  shows "\<exists>k vs. log' = polls dev k (log @ oneshot_writes dev) @ [rd2 dev]
            \<and> poll_reads ctx dev 0b1 0 (log @ oneshot_writes dev) k vs"
proof -
  obtain r1 l1 where w1: "writeCommands dev [ctrl_reg1 (regs dev), 0] log = (r1, l1)"
    by (cases "writeCommands dev [ctrl_reg1 (regs dev), 0] log")
  with writeCommands_pair_log [of dev "ctrl_reg1 (regs dev)" 0 log]
  have l1: "l1 = log @ [write_ev dev (ctrl_reg1 (regs dev)) 0]" by simp
  define cmd :: byte where "cmd = (if chipType dev = chipLPS25H then 0b00001111 else 0b01111010)"
  obtain r2 l2 where w2: "writeCommands dev [res_conf (regs dev), cmd] l1 = (r2, l2)"
    by (cases "writeCommands dev [res_conf (regs dev), cmd] l1")
  with writeCommands_pair_log [of dev "res_conf (regs dev)" cmd l1]
  have l2: "l2 = l1 @ [write_ev dev (res_conf (regs dev)) cmd]" by simp
  define la where "la = (if res_conf (regs dev) \<noteq> 0 then l2 else l1)"
  have la: "la = l1 @ avg_events dev"
    by (simp add: la_def l2 avg_events_def cmd_def)
  obtain r3 l3 where w3: "writeCommands dev [ctrl_reg1 (regs dev), 0b10000100] la = (r3, l3)"
    by (cases "writeCommands dev [ctrl_reg1 (regs dev), 0b10000100] la")
  with writeCommands_pair_log [of dev "ctrl_reg1 (regs dev)" "0b10000100" la]
  have l3: "l3 = la @ [write_ev dev (ctrl_reg1 (regs dev)) 0b10000100]" by simp
  from assms w1 w2 w3 have "setAndCheckCtrlReg2 ctx dev 0b1 l3 = Some (None, log')"
    by (auto simp add: measureOneshot_def Let_def la_def cmd_def split: option.splits if_splits prod.splits)
  from setAndCheckCtrlReg2_success_reads [OF this] show ?thesis
    by (simp add: l3 la l1 oneshot_writes_avg)
qed

lemma measureOneshot_returns:
  assumes inv: "res_conf (regs dev) \<noteq> 0 \<longrightarrow> chipType dev = chipLPS25H \<or> chipType dev = chipLPS331A"
    and a1: "conn_accepts dev (ctrl_reg1 (regs dev)) 0 log"
    and a2: "res_conf (regs dev) \<noteq> 0 \<longrightarrow>
               conn_accepts dev (res_conf (regs dev))
                 (if chipType dev = chipLPS25H then 0b00001111 else 0b01111010)
                 (log @ [write_ev dev (ctrl_reg1 (regs dev)) 0])"
    and a3: "conn_accepts dev (ctrl_reg1 (regs dev)) 0b10000100
               (log @ butlast (butlast (oneshot_writes dev)))"
    and a4: "conn_accepts dev (ctrl_reg2 (regs dev)) 0b1 (log @ butlast (oneshot_writes dev))"
    and b: "busy_until ctx dev 0b1 vs (log @ oneshot_writes dev) k"
    and r: "conn_returns dev (ctrl_reg2 (regs dev)) (polls dev k (log @ oneshot_writes dev)) [vs k]"
    and v: "vs k AND 0b1 = 0"
  shows "measureOneshot ctx dev log
           = Some (None, polls dev k (log @ oneshot_writes dev) @ [rd2 dev])"
proof -
  let ?l1 = "log @ [write_ev dev (ctrl_reg1 (regs dev)) 0]"
  let ?la = "?l1 @ avg_events dev"
  let ?l3 = "?la @ [write_ev dev (ctrl_reg1 (regs dev)) 0b10000100]"
  have w1: "writeCommands dev [ctrl_reg1 (regs dev), 0] log = (None, ?l1)"
    using writeCommands_accepts [OF a1] .
  have w3: "writeCommands dev [ctrl_reg1 (regs dev), 0b10000100] ?la = (None, ?l3)"
    using writeCommands_accepts [of dev "ctrl_reg1 (regs dev)" "0b10000100" ?la] a3
    by (simp add: butlast_oneshot_writes)
  have l4: "?l3 @ [write_ev dev (ctrl_reg2 (regs dev)) 0b1] = log @ oneshot_writes dev"
    by (simp add: oneshot_writes_avg)
  have a4': "conn_accepts dev (ctrl_reg2 (regs dev)) 0b1 ?l3"
    using a4 by (simp add: butlast_oneshot_writes)
  have s: "setAndCheckCtrlReg2 ctx dev 0b1 ?l3
      = Some (None, polls dev k (log @ oneshot_writes dev) @ [rd2 dev])"
    using setAndCheckCtrlReg2_returns [where ctx = ctx and vs = vs and k = k, OF a4'] b r v
    by (simp only: l4) 
  show ?thesis
  proof (cases "res_conf (regs dev) = 0")
    case True
    then have "avg_events dev = []" by (simp add: avg_events_def)
    with True w1 w3 s show ?thesis
      by (simp add: measureOneshot_def Let_def)
  next
    case False
    let ?cmd = "if chipType dev = chipLPS25H then 0b00001111 else 0b01111010 :: byte"
    from False have av: "avg_events dev = [write_ev dev (res_conf (regs dev)) ?cmd]"
      by (simp add: avg_events_def)
    from False a2 have w2: "writeCommands dev [res_conf (regs dev), ?cmd] ?l1 = (None, ?la)"
      using writeCommands_accepts [of dev "res_conf (regs dev)" ?cmd ?l1] by (simp add: av)
    from False inv have c: "chipType dev = chipLPS25H \<or> chipType dev = chipLPS331A" by simp
    show ?thesis
    proof (cases "chipType dev = chipLPS25H")
      case True
      with False w1 w2 w3 s show ?thesis
        by (simp add: measureOneshot_def Let_def)
    next
      case F: False
      with c have "chipType dev = chipLPS331A" by simp
      with F False w1 w2 w3 s show ?thesis
        by (simp add: measureOneshot_def Let_def)
    qed
  qed
qed

lemma sense_returns:
  assumes "conn_returns dev (0x2b OR 0x80) log [t0, t1]"
    and "conn_returns dev (0x28 OR 0x80) (log @ [read_ev dev (0x2b OR 0x80) 2]) [b0, b1, b2]"
  shows "sense dev e log = (None,
          (sense_switch dev (rawTemp [t0, t1]) e)\<lparr>Pressure :=
             (scast (rawPress [b0, b1, b2]) * (((1000 * 1000 * 1000 * 100) div 2048) :: int64)) div 2\<rparr>,
          log @ [rdT dev, rdP dev])"
proof -
  have r1: "readReg dev (0x2b OR 0x80) [0, 0] log = (None, [t0, t1], log @ [rdT dev])"
    using readReg_returns [OF assms(1), of "[0, 0]"] by (simp add: numeral_2_eq_2)
  have r2: "readReg dev (0x28 OR 0x80) [t0, t1, 0] (log @ [rdT dev])
              = (None, [b0, b1, b2], log @ [rdT dev, rdP dev])"
    using readReg_returns [OF assms(2), of "[t0, t1, 0]"] by (simp add: numeral_2_eq_2 numeral_3_eq_3)
  have rt: "rawTemp [t0, t1, 0] = rawTemp [t0, t1]"
    by (simp add: rawTemp_def)
  show ?thesis
    using r1 r2 rt by (simp add: sense_def Let_def)
qed

lemma sense_success_reads:
  assumes "sense dev e log = (None, e', log')"
  shows "\<exists>t p. log' = log @ [rdT dev, rdP dev]
           \<and> readReg dev (0x2b OR 0x80) [0, 0] log = (None, t, log @ [rdT dev])
           \<and> readReg dev (0x28 OR 0x80) (t @ [0]) (log @ [rdT dev]) = (None, p, log @ [rdT dev, rdP dev])
           \<and> e' = (sense_switch dev (rawTemp t) e)\<lparr>Pressure :=
                (scast (rawPress p) * (((1000 * 1000 * 1000 * 100) div 2048) :: int64)) div 2\<rparr>"
proof (rule sense_cases [of dev e log], goal_cases)
  case (1 err)
  with assms show ?case by simp
next
  case (2 t err)
  with assms show ?case by simp
next
  case (3 t p)
  with assms have "log' = log @ [rdT dev, rdP dev]"
    "e' = (sense_switch dev (rawTemp t) e)\<lparr>Pressure :=
                (scast (rawPress p) * (((1000 * 1000 * 1000 * 100) div 2048) :: int64)) div 2\<rparr>"
    by (simp_all add: rawTemp_append)
  with 3(3,4) show ?case by blast
qed

lemma butlast_log_oneshot_writes:
  "butlast (log @ oneshot_writes dev) = log @ butlast (oneshot_writes dev)"
  "butlast (log @ butlast (oneshot_writes dev)) = log @ butlast (butlast (oneshot_writes dev))"
  by (simp_all add: butlast_append oneshot_writes_avg avg_events_def)

section \<open>The repository's tests\<close>

lemma Test_LPS331A_Continuous_Measurement:
  "run_Sense (\<lambda>addr. Playback (init_LPS331AOps @
        [([0x20, 0xe0], []), ([0xab], [0xd0, 0x6b]), ([0xa8], [0x00, 0x50, 0x3f])])) None
     = Some (None, \<lparr>Temperature = ZeroCelsius + 100 * Celsius, Pressure = 101300 * Pascal\<rparr>,
             [Tx [0x0f] 1, Tx [0x20] 1, Tx [0x21] 1, Tx [0x10] 1, Tx [0x20, 0xe0] 0,
              Tx [0xab] 2, Tx [0xa8] 3])"
  by code_simp

lemma Test_LPS331A_OneShot_Measurement:
  "run_Sense (\<lambda>addr. Playback (init_LPS331AOps @
        [([0x20, 0x00], []), ([0x10, 0x7a], []), ([0x20, 0x84], []), ([0x21, 0x01], []),
         ([0x21], [0x00]), ([0xab], [0xd0, 0x6b]), ([0xa8], [0x00, 0x50, 0x3f])]))
      (Some \<lparr>Mode = OneShot\<rparr>)
     = Some (None, \<lparr>Temperature = ZeroCelsius + 100 * Celsius, Pressure = 101300 * Pascal\<rparr>,
             [Tx [0x0f] 1, Tx [0x20] 1, Tx [0x21] 1, Tx [0x10] 1, Tx [0x20, 0x00] 0,
              Tx [0x10, 0x7a] 0, Tx [0x20, 0x84] 0, Tx [0x21, 0x01] 0, Tx [0x21] 1,
              Tx [0xab] 2, Tx [0xa8] 3])"
  by code_simp

section \<open>The claims\<close>

subsection \<open>C1\<close>

text \<open>
  C1, as stated: a failing \<open>Sense\<close> leaves both fields of the caller's \<open>SensorValues\<close>
  untouched, also when the temperature read succeeds and the pressure read fails.
  This is false. On an LPS331A whose bus answers the temperature read with
  \<open>0xd0, 0x6b\<close> and fails the pressure read, \<open>Sense\<close> returns an error and has already
  stored 100 \<degree>C (373150000000 nK) in \<open>Temperature\<close>, which was 0 before the call.
\<close>

theorem Sense_failure_changes_Temperature:
  "Sense Background (LPS331A_dev (Playback [([0xab], [0xd0, 0x6b])]))
       \<lparr>Temperature = 0, Pressure = 0\<rparr> []
     = Some (Some (Wrapf ''%s: %w'' [S ''lps331a'']
                    (Wrapf ''sense: failed to read PRESS_OUT: %w'' []
                      (Wrapf ''ir: %w'' [] (Underlying ''unexpected Tx()'')))),
             \<lparr>Temperature = 373150000000, Pressure = 0\<rparr>,
             [Tx [0xab] 2, Tx [0xa8] 3])
   \<and> Temperature \<lparr>Temperature = 373150000000, Pressure = 0\<rparr>
       \<noteq> Temperature \<lparr>Temperature = 0, Pressure = (0 :: int64)\<rparr>"
  by code_simp

text \<open>
  C1, amended: a failing \<open>Sense\<close> never changes \<open>Pressure\<close>, and it leaves the whole output
  untouched unless its error is that of the pressure read. In that case the
  temperature read just before it had succeeded, and the output is the old one with
  the \<open>switch\<close> on the chip type applied to the raw temperature made of the bytes that
  read returned. Conversely, whenever the one-shot preparation (if any) succeeds, the
  temperature read returns \<open>t0, t1\<close> and the pressure read fails, \<open>Sense\<close> fails with the
  pressure-read error and has already stored the conversion of that raw temperature:
  42.5 \<degree>C plus 1/480 \<degree>C per count on an LPS331A, 1/100 \<degree>C per count on an LPS25H.
\<close>

theorem Sense_failure_output:
  "(Sense ctx dev e log = Some (Some err, e', log') \<longrightarrow>
      Pressure e' = Pressure e
      \<and> ((\<forall>cause. err \<noteq> wrap dev (Wrapf ''sense: failed to read PRESS_OUT: %w'' [] cause))
           \<longrightarrow> e' = e)
      \<and> (\<forall>cause. err = wrap dev (Wrapf ''sense: failed to read PRESS_OUT: %w'' [] cause) \<longrightarrow>
            (\<exists>l t. log' = l @ [read_ev dev (0x2b OR 0x80) 2, read_ev dev (0x28 OR 0x80) 3]
                 \<and> readReg dev (0x2b OR 0x80) [0, 0] l
                     = (None, t, l @ [read_ev dev (0x2b OR 0x80) 2])
                 \<and> e' = sense_switch dev (rawTemp t) e)))
   \<and> ((if oneshotMode dev then measureOneshot ctx dev log else Some (None, log)) = Some (None, l1)
       \<and> conn_returns dev (0x2b OR 0x80) l1 [t0, t1]
       \<and> conn_fails dev (0x28 OR 0x80) (l1 @ [read_ev dev (0x2b OR 0x80) 2]) 3 cause
      \<longrightarrow> Sense ctx dev e log
            = Some (Some (wrap dev (Wrapf ''sense: failed to read PRESS_OUT: %w'' []
                            (Wrapf (if isSPI dev then ''sr: %w'' else ''ir: %w'') [] cause))),
                    sense_switch dev (rawTemp [t0, t1]) e,
                    l1 @ [read_ev dev (0x2b OR 0x80) 2, read_ev dev (0x28 OR 0x80) 3])
          \<and> (chipType dev = chipLPS331A \<longrightarrow>
                Temperature (sense_switch dev (rawTemp [t0, t1]) e)
                  = ZeroCelsius + 42500000000 + div_int64 (scast (rawTemp [t0, t1]) * Celsius) 480)
          \<and> (chipType dev = chipLPS25H \<longrightarrow>
                Temperature (sense_switch dev (rawTemp [t0, t1]) e)
                  = ZeroCelsius + div_int64 (scast (rawTemp [t0, t1]) * Celsius) 100))"
proof -
  have bwd: "(Sense ctx dev e log = Some (Some err, e', log') \<longrightarrow>
      Pressure e' = Pressure e
      \<and> ((\<forall>cause. err \<noteq> wrap dev (Wrapf ''sense: failed to read PRESS_OUT: %w'' [] cause))
           \<longrightarrow> e' = e)
      \<and> (\<forall>cause. err = wrap dev (Wrapf ''sense: failed to read PRESS_OUT: %w'' [] cause) \<longrightarrow>
            (\<exists>l t. log' = l @ [read_ev dev (0x2b OR 0x80) 2, read_ev dev (0x28 OR 0x80) 3]
                 \<and> readReg dev (0x2b OR 0x80) [0, 0] l
                     = (None, t, l @ [read_ev dev (0x2b OR 0x80) 2])
                 \<and> e' = sense_switch dev (rawTemp t) e)))"
  proof (rule impI)
  assume S0: "Sense ctx dev e log = Some (Some err, e', log')"
  define m where "m = (if oneshotMode dev then measureOneshot ctx dev log else Some (None, log))"
  from S0 obtain r1 l1 where m1: "m = Some (r1, l1)"
    by (cases m) (auto simp add: Sense_def m_def)
  have "Pressure e' = Pressure e
      \<and> ((\<forall>cause. err \<noteq> wrap dev (Wrapf ''sense: failed to read PRESS_OUT: %w'' [] cause))
           \<longrightarrow> e' = e)
      \<and> (\<forall>cause. err = wrap dev (Wrapf ''sense: failed to read PRESS_OUT: %w'' [] cause) \<longrightarrow>
            (\<exists>l t. log' = l @ [read_ev dev (0x2b OR 0x80) 2, read_ev dev (0x28 OR 0x80) 3]
                 \<and> readReg dev (0x2b OR 0x80) [0, 0] l
                     = (None, t, l @ [read_ev dev (0x2b OR 0x80) 2])
                 \<and> e' = sense_switch dev (rawTemp t) e))"
  proof (cases r1)
    case (Some err1)
    with S0 m1 have r: "err = wrap dev err1" "e' = e"
      by (simp_all add: Sense_def m_def)
    from Some m1 have "oneshotMode dev" "measureOneshot ctx dev log = Some (Some err1, l1)"
      by (auto simp add: m_def split: if_splits)
    from measureOneshot_error_not_PRESS [OF this(2)] r show ?thesis
      by (simp add: wrap_def)
  next
    case None
    with S0 m1
    have S: "(case sense dev e l1 of
             (Some err, e', log2) \<Rightarrow> Some (Some (wrap dev err), e', log2)
           | (None, e', log2) \<Rightarrow> Some (None, e', log2)) = Some (Some err, e', log')"
      by (simp add: Sense_def m_def)
    show ?thesis
    proof (rule sense_cases [of dev e l1], goal_cases)
      case (1 cause)
      with S show ?thesis by (auto simp add: wrap_def)
    next
      case (2 t cause)
      with S have "err = wrap dev (Wrapf ''sense: failed to read PRESS_OUT: %w'' [] cause)"
        "e' = sense_switch dev (rawTemp t) e"
        "log' = l1 @ [read_ev dev (0x2b OR 0x80) 2, read_ev dev (0x28 OR 0x80) 3]"
        by (simp_all add: rawTemp_append)
      with 2(1,2) show ?thesis
        by (auto simp add: sense_switch_Pressure)
    next
      case (3 t p)
      with S show ?thesis by simp
    qed
  qed
  then show "Pressure e' = Pressure e
      \<and> ((\<forall>cause. err \<noteq> wrap dev (Wrapf ''sense: failed to read PRESS_OUT: %w'' [] cause))
           \<longrightarrow> e' = e)
      \<and> (\<forall>cause. err = wrap dev (Wrapf ''sense: failed to read PRESS_OUT: %w'' [] cause) \<longrightarrow>
            (\<exists>l t. log' = l @ [read_ev dev (0x2b OR 0x80) 2, read_ev dev (0x28 OR 0x80) 3]
                 \<and> readReg dev (0x2b OR 0x80) [0, 0] l
                     = (None, t, l @ [read_ev dev (0x2b OR 0x80) 2])
                 \<and> e' = sense_switch dev (rawTemp t) e))" .
  qed
  have fwd: "((if oneshotMode dev then measureOneshot ctx dev log else Some (None, log)) = Some (None, l1)
       \<and> conn_returns dev (0x2b OR 0x80) l1 [t0, t1]
       \<and> conn_fails dev (0x28 OR 0x80) (l1 @ [read_ev dev (0x2b OR 0x80) 2]) 3 cause
      \<longrightarrow> Sense ctx dev e log
            = Some (Some (wrap dev (Wrapf ''sense: failed to read PRESS_OUT: %w'' []
                            (Wrapf (if isSPI dev then ''sr: %w'' else ''ir: %w'') [] cause))),
                    sense_switch dev (rawTemp [t0, t1]) e,
                    l1 @ [read_ev dev (0x2b OR 0x80) 2, read_ev dev (0x28 OR 0x80) 3])
          \<and> (chipType dev = chipLPS331A \<longrightarrow>
                Temperature (sense_switch dev (rawTemp [t0, t1]) e)
                  = ZeroCelsius + 42500000000 + div_int64 (scast (rawTemp [t0, t1]) * Celsius) 480)
          \<and> (chipType dev = chipLPS25H \<longrightarrow>
                Temperature (sense_switch dev (rawTemp [t0, t1]) e)
                  = ZeroCelsius + div_int64 (scast (rawTemp [t0, t1]) * Celsius) 100))"
  proof (intro impI conjI)
  assume h: "(if oneshotMode dev then measureOneshot ctx dev log else Some (None, log)) = Some (None, l1)
       \<and> conn_returns dev (0x2b OR 0x80) l1 [t0, t1]
       \<and> conn_fails dev (0x28 OR 0x80) (l1 @ [read_ev dev (0x2b OR 0x80) 2]) 3 cause"
  then have r1: "readReg dev (0x2b OR 0x80) [0, 0] l1 = (None, [t0, t1], l1 @ [rdT dev])"
    using readReg_returns [of dev "0x2b OR 0x80" l1 "[t0, t1]" "[0, 0]"]
    by (simp add: numeral_2_eq_2)
  from h obtain b' where r2: "readReg dev (0x28 OR 0x80) [t0, t1, 0] (l1 @ [rdT dev])
      = (Some (Wrapf (if isSPI dev then ''sr: %w'' else ''ir: %w'') [] cause), b',
         l1 @ [rdT dev, rdP dev])"
    using readReg_fails [of dev "0x28 OR 0x80" "l1 @ [rdT dev]" "[t0, t1, 0]" cause]
    by (auto simp add: numeral_3_eq_3)
  have rt: "rawTemp [t0, t1, 0] = rawTemp [t0, t1]"
    using rawTemp_append [of "[t0, t1]" "[0]"] by simp
  have "sense dev e l1
      = (Some (Wrapf ''sense: failed to read PRESS_OUT: %w'' []
                 (Wrapf (if isSPI dev then ''sr: %w'' else ''ir: %w'') [] cause)),
         sense_switch dev (rawTemp [t0, t1]) e, l1 @ [rdT dev, rdP dev])"
    using r1 r2 rt by (simp add: sense_def Let_def)
  with h show "Sense ctx dev e log
            = Some (Some (wrap dev (Wrapf ''sense: failed to read PRESS_OUT: %w'' []
                            (Wrapf (if isSPI dev then ''sr: %w'' else ''ir: %w'') [] cause))),
                    sense_switch dev (rawTemp [t0, t1]) e,
                    l1 @ [read_ev dev (0x2b OR 0x80) 2, read_ev dev (0x28 OR 0x80) 3])"
    by (simp add: Sense_def)
next
  assume "chipType dev = chipLPS331A"
  then show "Temperature (sense_switch dev (rawTemp [t0, t1]) e)
                  = ZeroCelsius + 42500000000 + div_int64 (scast (rawTemp [t0, t1]) * Celsius) 480"
    by (simp add: sense_switch_def div_int64_def Celsius_def)
next
  assume "chipType dev = chipLPS25H"
  then show "Temperature (sense_switch dev (rawTemp [t0, t1]) e)
                  = ZeroCelsius + div_int64 (scast (rawTemp [t0, t1]) * Celsius) 100"
    by (simp add: sense_switch_def chipLPS25H_def chipLPS331A_def chipLPS22H_def)
qed
  from bwd fwd show ?thesis by (rule conjI)
qed

theorem Sense_failure_output_witness:
  "Sense Background (LPS331A_dev (Playback [([0xab], [0xd0, 0x6b])]))
       \<lparr>Temperature = 5, Pressure = 7\<rparr> []
     = Some (Some (wrap (LPS331A_dev (Playback [([0xab], [0xd0, 0x6b])]))
                    (Wrapf ''sense: failed to read PRESS_OUT: %w'' []
                      (Wrapf ''ir: %w'' [] (Underlying ''unexpected Tx()'')))),
             \<lparr>Temperature = 373150000000, Pressure = 7\<rparr>,
             [Tx [0xab] 2, Tx [0xa8] 3])
   \<and> Pressure \<lparr>Temperature = 373150000000, Pressure = 7\<rparr>
       = Pressure \<lparr>Temperature = 5, Pressure = (7 :: int64)\<rparr>
   \<and> (373150000000 :: int64)
       = ZeroCelsius + 42500000000 + div_int64 (scast (rawTemp [0xd0, 0x6b]) * Celsius) 480"
proof -
  define dev where "dev = LPS331A_dev (Playback [([0xab], [0xd0, 0x6b])])"
  define e0 where "e0 = \<lparr>Temperature = 5, Pressure = (7 :: int64)\<rparr>"
  note defs = dev_def LPS331A_dev_def Playback_def read_ev_def conn_returns_def conn_fails_def
  have h: "(if oneshotMode dev then measureOneshot Background dev [] else Some (None, [])) = Some (None, [])
       \<and> conn_returns dev (0x2b OR 0x80) [] [0xd0, 0x6b]
       \<and> conn_fails dev (0x28 OR 0x80) ([] @ [read_ev dev (0x2b OR 0x80) 2]) 3
            (Underlying ''unexpected Tx()'')"
    by (simp add: defs)
  have c: "chipType dev = chipLPS331A" by (simp add: defs)
  have rd: "sense_switch dev (rawTemp [0xd0, 0x6b]) e0
      = \<lparr>Temperature = 373150000000, Pressure = 7\<rparr>"
    unfolding dev_def e0_def by code_simp
  note T = Sense_failure_output [where ctx = Background and dev = dev and e = e0 and log = "[]"
      and ?l1.0 = "[]" and ?t0.0 = "0xd0" and ?t1.0 = "0x6b"
      and cause = "Underlying ''unexpected Tx()''"]
  from T [THEN conjunct2] h c
  have S: "Sense Background dev e0 []
     = Some (Some (wrap dev (Wrapf ''sense: failed to read PRESS_OUT: %w'' []
                      (Wrapf ''ir: %w'' [] (Underlying ''unexpected Tx()'')))),
             sense_switch dev (rawTemp [0xd0, 0x6b]) e0,
             [Tx [0xab] 2, Tx [0xa8] 3])"
    and t: "Temperature (sense_switch dev (rawTemp [0xd0, 0x6b]) e0)
           = ZeroCelsius + 42500000000 + div_int64 (scast (rawTemp [0xd0, 0x6b]) * Celsius) 480"
    by (simp_all add: defs)
  from T [THEN conjunct1, rule_format, OF S]
  have p: "Pressure (sense_switch dev (rawTemp [0xd0, 0x6b]) e0) = Pressure e0" by blast
  from S [unfolded rd] t [unfolded rd] p [unfolded rd] show ?thesis
    unfolding dev_def e0_def by simp
qed

subsection \<open>C2\<close>

text \<open>
  C2: a successful \<open>sense\<close> sets \<open>Temperature\<close> to the conversion of the raw
  temperature for each of the three variants. The code does not do so for the LPS22H:
  its \<open>case chipLPS22H:\<close> is empty and a Go \<open>case\<close> does not fall through to the
  \<open>case chipLPS25H:\<close> below it, so on an LPS22H \<open>sense\<close> never writes \<open>Temperature\<close>,
  whatever the bus answers. With the raw word \<open>0x2710\<close> (10000 counts, 100 \<degree>C at 100
  counts per degree) a successful \<open>sense\<close> leaves \<open>Temperature\<close> at 0.
\<close>

theorem sense_LPS22H_temperature_untouched:
  "Temperature (fst (snd (sense (dev\<lparr>chipType := chipLPS22H\<rparr>) e log))) = Temperature e
   \<and> sense (LPS22H_dev (Playback [([0xab], [0x10, 0x27]), ([0xa8], [0x00, 0x50, 0x3f])]))
          \<lparr>Temperature = 0, Pressure = 0\<rparr> []
       = (None, \<lparr>Temperature = 0, Pressure = 101300000000000\<rparr>, [Tx [0xab] 2, Tx [0xa8] 3])"
proof
  have "sense_switch (dev\<lparr>chipType := chipLPS22H\<rparr>) rt e = e" for rt
    by (simp add: sense_switch_def chipLPS22H_def chipLPS331A_def)
  then have sw: "sense_switch (dev\<lparr>chipType := chipLPS22H\<rparr>) rt e = e" for rt .
  show "Temperature (fst (snd (sense (dev\<lparr>chipType := chipLPS22H\<rparr>) e log)))
      = Temperature e"
    by (rule sense_cases [of "dev\<lparr>chipType := chipLPS22H\<rparr>" e log]) (simp_all add: sw)
  show "sense (LPS22H_dev (Playback [([0xab], [0x10, 0x27]), ([0xa8], [0x00, 0x50, 0x3f])]))
          \<lparr>Temperature = 0, Pressure = 0\<rparr> []
       = (None, \<lparr>Temperature = 0, Pressure = 101300000000000\<rparr>, [Tx [0xab] 2, Tx [0xa8] 3])"
    by code_simp
qed

subsection \<open>C3\<close>

text \<open>
  C3: once the triggering write is accepted, \<open>setAndCheckCtrlReg2\<close> returns success
  exactly at the first read of the secondary control register whose value has no bit
  of the mask set. If the reads number 0 to \<open>k - 1\<close> each have a masked bit set
  (whatever their other bits) and the context is not cancelled in the waits, and read
  number \<open>k\<close> has the masked bits clear, the result is success and the bus has seen
  the write, then \<open>k\<close> times a read followed by a 5 ms wait, then the last read, and
  nothing else. If every read has a masked bit set and the context is never cancelled,
  the function does not return, and each round of the loop is one read and one 5 ms
  wait: the triggering write is not issued again.
\<close>

theorem setAndCheckCtrlReg2_first_clear:
  assumes "conn_accepts dev (ctrl_reg2 (regs dev)) val log"
    and "log1 = log @ [write_ev dev (ctrl_reg2 (regs dev)) val]"
  shows "(busy_until ctx dev val vs log1 k
            \<and> conn_returns dev (ctrl_reg2 (regs dev)) (polls dev k log1) [vs k] \<and> vs k AND val = 0
          \<longrightarrow> setAndCheckCtrlReg2 ctx dev val log
                = Some (None, polls dev k log1 @ [read_ev dev (ctrl_reg2 (regs dev)) 1]))
       \<and> ((\<forall>n. busy_until ctx dev val vs log1 n)
          \<longrightarrow> setAndCheckCtrlReg2 ctx dev val log = None
              \<and> (\<forall>n b. setAndCheckCtrlReg2_body ctx dev val [b] (polls dev n log1)
                        = Inr ([vs n], polls dev (Suc n) log1)))"
proof (intro conjI impI)
  assume h: "busy_until ctx dev val vs log1 k
     \<and> conn_returns dev (ctrl_reg2 (regs dev)) (polls dev k log1) [vs k] \<and> vs k AND val = 0"
  then obtain b' where b': "length b' = 1"
    "setAndCheckCtrlReg2_loop ctx dev val [0] log1
       = setAndCheckCtrlReg2_loop ctx dev val b' (polls dev k log1)"
    using loop_unroll [of ctx dev val vs log1 k "[0]"] by auto
  from h have "setAndCheckCtrlReg2_body ctx dev val b' (polls dev k log1)
      = Inl (None, polls dev k log1 @ [rd2 dev])"
    using body_clear [where ctx = ctx and b = b'] b'(1) by blast
  then have "setAndCheckCtrlReg2_loop ctx dev val b' (polls dev k log1)
      = Some (None, polls dev k log1 @ [rd2 dev])"
    by (subst setAndCheckCtrlReg2_loop.simps) simp
  with b'(2) show "setAndCheckCtrlReg2 ctx dev val log = Some (None, polls dev k log1 @ [rd2 dev])"
    by (simp add: setAndCheckCtrlReg2_accepts [OF assms(1)] assms(2))
next
  assume h: "\<forall>n. busy_until ctx dev val vs log1 n"
  from loop_diverges [OF this, of "[0]"]
  show "setAndCheckCtrlReg2 ctx dev val log = None"
    by (simp add: setAndCheckCtrlReg2_accepts [OF assms(1)] assms(2))
next
  assume h: "\<forall>n. busy_until ctx dev val vs log1 n"
  show "\<forall>n b. setAndCheckCtrlReg2_body ctx dev val [b] (polls dev n log1)
                        = Inr ([vs n], polls dev (Suc n) log1)"
  proof (intro allI)
    fix n b
    from h have "busy_until ctx dev val vs log1 (Suc n)" by blast
    then have k: "conn_returns dev (ctrl_reg2 (regs dev)) (polls dev n log1) [vs n]"
        "vs n AND val \<noteq> 0" "ctx (polls dev n log1 @ [rd2 dev]) = None"
      by (simp_all add: busy_until_def)
    show "setAndCheckCtrlReg2_body ctx dev val [b] (polls dev n log1)
                        = Inr ([vs n], polls dev (Suc n) log1)"
      using body_busy [where ctx = ctx and b = "[b]", OF k] by (simp add: polls_Suc)
  qed
qed

theorem setAndCheckCtrlReg2_first_clear_witness:
  "setAndCheckCtrlReg2 Background
       (LPS331A_dev (Playback [([0x21, 1], []), ([0x21], [0x81]), ([0x21], [0x80])])) 0b1 []
     = Some (None, [Tx [0x21, 1] 0, Tx [0x21] 1, TimerWait 5, Tx [0x21] 1])
   \<and> setAndCheckCtrlReg2 Background (LPS331A_dev (answers [0x01])) 0b1 [] = None"
proof -
  define dev1 where
    "dev1 = LPS331A_dev (Playback [([0x21, 1], []), ([0x21], [0x81]), ([0x21], [0x80])])"
  define dev2 where "dev2 = LPS331A_dev (answers [0x01])"
  have a1: "conn_accepts dev1 (ctrl_reg2 (regs dev1)) 1 []"
    by (simp add: conn_accepts_def dev1_def LPS331A_dev_def Playback_def)
  have l1: "[Tx [0x21, 1] 0] = [] @ [write_ev dev1 (ctrl_reg2 (regs dev1)) 1]"
    by (simp add: write_ev_def dev1_def LPS331A_dev_def)
  have b1: "busy_until Background dev1 1 (\<lambda>j. if j < 1 then 0x81 else 0x80) [Tx [0x21, 1] 0] 1
     \<and> conn_returns dev1 (ctrl_reg2 (regs dev1)) (polls dev1 1 [Tx [0x21, 1] 0])
          [if (1 :: nat) < 1 then 0x81 else 0x80]
     \<and> (if (1 :: nat) < 1 then 0x81 else 0x80) AND (1 :: byte) = 0"
    by (simp add: busy_until_def conn_returns_def dev1_def LPS331A_dev_def Playback_def polls_def
        Background_def read_ev_def)
  have 1: "setAndCheckCtrlReg2 Background dev1 1 []
     = Some (None, [Tx [0x21, 1] 0, Tx [0x21] 1, TimerWait 5, Tx [0x21] 1])"
    using setAndCheckCtrlReg2_first_clear [OF a1 l1, of Background
        "\<lambda>j. if j < 1 then 0x81 else 0x80" 1] b1
    by (simp add: polls_def read_ev_def dev1_def LPS331A_dev_def)
  have a2: "conn_accepts dev2 (ctrl_reg2 (regs dev2)) 1 []"
    by (simp add: conn_accepts_def dev2_def LPS331A_dev_def answers_def)
  have l2: "[Tx [0x21, 1] 0] = [] @ [write_ev dev2 (ctrl_reg2 (regs dev2)) 1]"
    by (simp add: write_ev_def dev2_def LPS331A_dev_def)
  have b2: "\<forall>n. busy_until Background dev2 1 (\<lambda>j. 1) [Tx [0x21, 1] 0] n"
    by (simp add: busy_until_def conn_returns_def dev2_def LPS331A_dev_def answers_def
        Background_def)
  have 2: "setAndCheckCtrlReg2 Background dev2 1 [] = None"
    using setAndCheckCtrlReg2_first_clear [OF a2 l2, of Background "\<lambda>j. 1"] b2 by blast
  from 1 2 show ?thesis by (simp add: dev1_def dev2_def)
qed

subsection \<open>C4\<close>

text \<open>
  C4: let the identification register \<open>0x0F\<close> read as the byte \<open>c\<close> at construction.
  If \<open>c\<close> is \<open>0xbb\<close>, \<open>0xbd\<close> or \<open>0xb1\<close>, \<open>makeDev\<close> stores in the handle that variant's
  name and chip type, its fixed register map (primary and secondary control register,
  resolution-configuration register, 0 for none) and the initial control byte
  \<open>(PD << 7) | (ODRs << 4)\<close> of its power-down bit and data-rate code. For any other
  byte \<open>makeDev\<close> fails with the unexpected-chip error right after that read, and
  neither \<open>NewI2C\<close> nor \<open>NewSPI\<close> returns a handle.
\<close>

theorem makeDev_selects_variant:
  assumes "conn_returns dev 0x0F log [c]"
  shows
   "(c = 0xbb \<longrightarrow>
       makeDev_switch c = Some (''LPS331A'', 0x10, 0x20, 0x21, 0b110, 1)
       \<and> selected (fst (snd (makeDev dev opts log))) ''LPS331A'' 0xbb 0x20 0x21 0x10
           (push_bit 7 1 OR push_bit 4 0b110))
  \<and> (c = 0xbd \<longrightarrow>
       makeDev_switch c = Some (''LPS25H'', 0x10, 0x20, 0x21, 0b011, 1)
       \<and> selected (fst (snd (makeDev dev opts log))) ''LPS25H'' 0xbd 0x20 0x21 0x10
           (push_bit 7 1 OR push_bit 4 0b011))
  \<and> (c = 0xb1 \<longrightarrow>
       makeDev_switch c = Some (''LPS22H'', 0x00, 0x10, 0x11, 0b110, 0)
       \<and> selected (fst (snd (makeDev dev opts log))) ''LPS22H'' 0xb1 0x10 0x11 0x00
           (push_bit 7 0 OR push_bit 4 0b110))
  \<and> (c \<noteq> 0xbb \<and> c \<noteq> 0xbd \<and> c \<noteq> 0xb1 \<longrightarrow>
       makeDev dev opts log
         = (Some (Errorf ''lps: unexpected chip Type %x'' [B c]), dev, log @ [read_ev dev 0x0F 1])
       \<and> (\<forall>b addr. dev = new_Dev (b addr) False \<longrightarrow> fst (NewI2C b addr opts log) = None)
       \<and> (\<forall>cn. dev = new_Dev cn True \<longrightarrow> fst (NewSPI (Inr cn) opts log) = None))"
proof (intro conjI impI allI)
  assume c: "c = 0xbb"
  then show s: "makeDev_switch c = Some (''LPS331A'', 0x10, 0x20, 0x21, 0b110, 1)"
    by (simp add: makeDev_switch_def chipLPS331A_def)
  from makeDev_supported [OF assms s, of opts] c
  show "selected (fst (snd (makeDev dev opts log))) ''LPS331A'' 0xbb 0x20 0x21 0x10
           (push_bit 7 1 OR push_bit 4 0b110)" by simp
next
  assume c: "c = 0xbd"
  then show s: "makeDev_switch c = Some (''LPS25H'', 0x10, 0x20, 0x21, 0b011, 1)"
    by (simp add: makeDev_switch_def chipLPS331A_def chipLPS25H_def)
  from makeDev_supported [OF assms s, of opts] c
  show "selected (fst (snd (makeDev dev opts log))) ''LPS25H'' 0xbd 0x20 0x21 0x10
           (push_bit 7 1 OR push_bit 4 0b011)" by simp
next
  assume c: "c = 0xb1"
  then show s: "makeDev_switch c = Some (''LPS22H'', 0x00, 0x10, 0x11, 0b110, 0)"
    by (simp add: makeDev_switch_def chipLPS331A_def chipLPS25H_def chipLPS22H_def)
  from makeDev_supported [OF assms s, of opts] c
  show "selected (fst (snd (makeDev dev opts log))) ''LPS22H'' 0xb1 0x10 0x11 0x00
           (push_bit 7 0 OR push_bit 4 0b110)" by simp
next
  assume "c \<noteq> 0xbb \<and> c \<noteq> 0xbd \<and> c \<noteq> 0xb1"
  then have n: "makeDev_switch c = None" by (simp add: makeDev_switch_None_iff)
  from makeDev_unsupported [OF assms n]
  show "makeDev dev opts log
         = (Some (Errorf ''lps: unexpected chip Type %x'' [B c]), dev, log @ [read_ev dev 0x0F 1])" .
next
  fix b :: i2c_Bus and addr
  assume "c \<noteq> 0xbb \<and> c \<noteq> 0xbd \<and> c \<noteq> 0xb1" and d: "dev = new_Dev (b addr) False"
  then have n: "makeDev_switch c = None" by (simp add: makeDev_switch_None_iff)
  from makeDev_unsupported [OF assms n, of opts] d
  show "fst (NewI2C b addr opts log) = None" by (simp add: NewI2C_def)
next
  fix cn
  assume "c \<noteq> 0xbb \<and> c \<noteq> 0xbd \<and> c \<noteq> 0xb1" and d: "dev = new_Dev cn True"
  then have n: "makeDev_switch c = None" by (simp add: makeDev_switch_None_iff)
  from makeDev_unsupported [OF assms n, of opts] d
  show "fst (NewSPI (Inr cn) opts log) = None" by (simp add: NewSPI_def)
qed

theorem makeDev_selects_variant_witness:
  "selected (fst (snd (makeDev (new_Dev (answers [0xbb]) False) None [])))
       ''LPS331A'' 0xbb 0x20 0x21 0x10 0xe0
   \<and> selected (fst (snd (makeDev (new_Dev (answers [0xbd]) False) None [])))
       ''LPS25H'' 0xbd 0x20 0x21 0x10 0xb0
   \<and> selected (fst (snd (makeDev (new_Dev (answers [0xb1]) False) None [])))
       ''LPS22H'' 0xb1 0x10 0x11 0x00 0x60
   \<and> makeDev (new_Dev (answers [0x42]) False) None []
       = (Some (Errorf ''lps: unexpected chip Type %x'' [B 0x42]),
          new_Dev (answers [0x42]) False, [Tx [0x0F] 1])
   \<and> fst (NewI2C (\<lambda>addr. answers [0x42]) 0x5c None []) = None
   \<and> fst (NewSPI (Inr (answers [0x00, 0x42])) None []) = None"
proof -
  have r: "conn_returns (new_Dev (answers [c]) False) 0x0F [] [c]" for c
    by (simp add: conn_returns_def new_Dev_def answers_def)
  have rs: "conn_returns (new_Dev (answers [0x00, 0x42]) True) 0x0F [] [0x42]"
    by (simp add: conn_returns_def new_Dev_def answers_def)
  from makeDev_selects_variant [where opts = None, OF r [of "0xbb"]]
  have 1: "selected (fst (snd (makeDev (new_Dev (answers [0xbb]) False) None [])))
       ''LPS331A'' 0xbb 0x20 0x21 0x10 0xe0" by simp
  from makeDev_selects_variant [where opts = None, OF r [of "0xbd"]]
  have 2: "selected (fst (snd (makeDev (new_Dev (answers [0xbd]) False) None [])))
       ''LPS25H'' 0xbd 0x20 0x21 0x10 0xb0" by simp
  from makeDev_selects_variant [where opts = None, OF r [of "0xb1"]]
  have 3: "selected (fst (snd (makeDev (new_Dev (answers [0xb1]) False) None [])))
       ''LPS22H'' 0xb1 0x10 0x11 0x00 0x60" by simp
  from makeDev_selects_variant [where opts = None, OF r [of "0x42"]]
  have u: "makeDev (new_Dev (answers [0x42]) False) None []
       = (Some (Errorf ''lps: unexpected chip Type %x'' [B 0x42]),
          new_Dev (answers [0x42]) False, [] @ [read_ev (new_Dev (answers [0x42]) False) 0x0F 1])
     \<and> (\<forall>b addr. new_Dev (answers [0x42]) False = new_Dev (b addr) False
            \<longrightarrow> fst (NewI2C b addr None []) = None)"
    by simp
  from u have 4: "makeDev (new_Dev (answers [0x42]) False) None []
       = (Some (Errorf ''lps: unexpected chip Type %x'' [B 0x42]),
          new_Dev (answers [0x42]) False, [Tx [0x0F] 1])"
    by (simp add: read_ev_def new_Dev_def)
  from u [THEN conjunct2, rule_format, of "\<lambda>addr. answers [0x42]" "0x5c"]
  have 5: "fst (NewI2C (\<lambda>addr. answers [0x42]) 0x5c None []) = None"
    by simp
  from makeDev_selects_variant [where opts = None, OF rs]
  have 6: "fst (NewSPI (Inr (answers [0x00, 0x42])) None []) = None" by simp
  from 1 2 3 4 5 6 show ?thesis by simp
qed

subsection \<open>C5\<close>

text \<open>
  C5: on a handle in one-shot mode, let \<open>l4\<close> be the log followed by: the write of 0 to
  the primary control register; if the resolution-configuration register address is
  not 0, the write of the averaging code to it (\<open>0b00001111\<close> on an LPS25H,
  \<open>0b01111010\<close> on an LPS331A); the write of \<open>0b10000100\<close> to the primary control
  register; the trigger write of bit 0 to the secondary control register.
  A call of \<open>Sense\<close> that returns a reading has issued exactly \<open>l4\<close>, then the polling
  of the secondary control register (\<open>k\<close> times a read and a 5 ms wait, then a last
  read, where the first \<open>k\<close> reads had bit 0 set and the last had it clear), then the
  2-byte temperature read at \<open>0x2B | 0x80\<close>, then the 3-byte pressure read at
  \<open>0x28 | 0x80\<close>, and its reading is the conversion of the bytes those two reads
  returned. Conversely, when the bus accepts the writes, the first \<open>k\<close> polls read bit 0
  set without cancellation, poll \<open>k\<close> reads bit 0 clear and the two data reads answer,
  \<open>Sense\<close> does return that reading after exactly that sequence.
\<close>

theorem Sense_oneshot_sequence:
  assumes "oneshotMode dev"
    and "l4 = log
           @ [write_ev dev (ctrl_reg1 (regs dev)) 0]
           @ (if res_conf (regs dev) \<noteq> 0
              then [write_ev dev (res_conf (regs dev))
                      (if chipType dev = chipLPS25H then 0b00001111 else 0b01111010)]
              else [])
           @ [write_ev dev (ctrl_reg1 (regs dev)) 0b10000100]
           @ [write_ev dev (ctrl_reg2 (regs dev)) 0b1]"
  shows
    "(Sense ctx dev e log = Some (None, e', log') \<longrightarrow>
        (\<exists>k vs t p.
           log' = l4
             @ concat (replicate k [read_ev dev (ctrl_reg2 (regs dev)) 1, TimerWait 5])
             @ [read_ev dev (ctrl_reg2 (regs dev)) 1]
             @ [read_ev dev (0x2b OR 0x80) 2]
             @ [read_ev dev (0x28 OR 0x80) 3]
           \<and> poll_reads ctx dev 0b1 0 l4 k vs
           \<and> readReg dev (0x2b OR 0x80) [0, 0]
                 (polls dev k l4 @ [read_ev dev (ctrl_reg2 (regs dev)) 1])
               = (None, t, polls dev k l4 @ [read_ev dev (ctrl_reg2 (regs dev)) 1,
                                             read_ev dev (0x2b OR 0x80) 2])
           \<and> readReg dev (0x28 OR 0x80) (t @ [0])
                 (polls dev k l4 @ [read_ev dev (ctrl_reg2 (regs dev)) 1,
                                    read_ev dev (0x2b OR 0x80) 2])
               = (None, p, polls dev k l4 @ [read_ev dev (ctrl_reg2 (regs dev)) 1,
                                             read_ev dev (0x2b OR 0x80) 2,
                                             read_ev dev (0x28 OR 0x80) 3])
           \<and> e' = (sense_switch dev (rawTemp t) e)\<lparr>Pressure :=
                  (scast (rawPress p) * (((1000 * 1000 * 1000 * 100) div 2048) :: int64)) div 2\<rparr>))
     \<and> ((res_conf (regs dev) \<noteq> 0 \<longrightarrow> chipType dev = chipLPS25H \<or> chipType dev = chipLPS331A)
         \<and> conn_accepts dev (ctrl_reg1 (regs dev)) 0 log
         \<and> (res_conf (regs dev) \<noteq> 0 \<longrightarrow>
               conn_accepts dev (res_conf (regs dev))
                 (if chipType dev = chipLPS25H then 0b00001111 else 0b01111010)
                 (log @ [write_ev dev (ctrl_reg1 (regs dev)) 0]))
         \<and> conn_accepts dev (ctrl_reg1 (regs dev)) 0b10000100 (butlast (butlast l4))
         \<and> conn_accepts dev (ctrl_reg2 (regs dev)) 0b1 (butlast l4)
         \<and> busy_until ctx dev 0b1 vs l4 k
         \<and> conn_returns dev (ctrl_reg2 (regs dev)) (polls dev k l4) [vs k]
         \<and> vs k AND 0b1 = 0
         \<and> conn_returns dev (0x2b OR 0x80)
               (polls dev k l4 @ [read_ev dev (ctrl_reg2 (regs dev)) 1]) [t0, t1]
         \<and> conn_returns dev (0x28 OR 0x80)
               (polls dev k l4 @ [read_ev dev (ctrl_reg2 (regs dev)) 1,
                                  read_ev dev (0x2b OR 0x80) 2]) [b0, b1, b2]
        \<longrightarrow> Sense ctx dev e log
              = Some (None,
                      (sense_switch dev (rawTemp [t0, t1]) e)\<lparr>Pressure :=
                         (scast (rawPress [b0, b1, b2])
                            * (((1000 * 1000 * 1000 * 100) div 2048) :: int64)) div 2\<rparr>,
                      l4
                      @ concat (replicate k [read_ev dev (ctrl_reg2 (regs dev)) 1, TimerWait 5])
                      @ [read_ev dev (ctrl_reg2 (regs dev)) 1]
                      @ [read_ev dev (0x2b OR 0x80) 2]
                      @ [read_ev dev (0x28 OR 0x80) 3]))"
proof -
  have l4: "l4 = log @ oneshot_writes dev"
    by (simp add: assms(2) oneshot_writes_def)
  have bwd: "Sense ctx dev e log = Some (None, e', log') \<longrightarrow>
        (\<exists>k vs t p.
           log' = l4
             @ concat (replicate k [read_ev dev (ctrl_reg2 (regs dev)) 1, TimerWait 5])
             @ [read_ev dev (ctrl_reg2 (regs dev)) 1]
             @ [read_ev dev (0x2b OR 0x80) 2]
             @ [read_ev dev (0x28 OR 0x80) 3]
           \<and> poll_reads ctx dev 0b1 0 l4 k vs
           \<and> readReg dev (0x2b OR 0x80) [0, 0]
                 (polls dev k l4 @ [read_ev dev (ctrl_reg2 (regs dev)) 1])
               = (None, t, polls dev k l4 @ [read_ev dev (ctrl_reg2 (regs dev)) 1,
                                             read_ev dev (0x2b OR 0x80) 2])
           \<and> readReg dev (0x28 OR 0x80) (t @ [0])
                 (polls dev k l4 @ [read_ev dev (ctrl_reg2 (regs dev)) 1,
                                    read_ev dev (0x2b OR 0x80) 2])
               = (None, p, polls dev k l4 @ [read_ev dev (ctrl_reg2 (regs dev)) 1,
                                             read_ev dev (0x2b OR 0x80) 2,
                                             read_ev dev (0x28 OR 0x80) 3])
           \<and> e' = (sense_switch dev (rawTemp t) e)\<lparr>Pressure :=
                  (scast (rawPress p) * (((1000 * 1000 * 1000 * 100) div 2048) :: int64)) div 2\<rparr>)"
  proof (rule impI)
    assume S: "Sense ctx dev e log = Some (None, e', log')"
    with assms(1) obtain l5 where m: "measureOneshot ctx dev log = Some (None, l5)"
      and s: "sense dev e l5 = (None, e', log')"
      by (auto simp add: Sense_def split: option.splits prod.splits)
    from measureOneshot_success_reads [OF m] obtain k vs where
      k: "l5 = polls dev k l4 @ [rd2 dev]" "poll_reads ctx dev 0b1 0 l4 k vs"
      unfolding l4 by blast
    from sense_success_reads [OF s] obtain t p where
      t: "log' = l5 @ [rdT dev, rdP dev]"
        "readReg dev (0x2b OR 0x80) [0, 0] l5 = (None, t, l5 @ [rdT dev])"
        "readReg dev (0x28 OR 0x80) (t @ [0]) (l5 @ [rdT dev]) = (None, p, l5 @ [rdT dev, rdP dev])"
        "e' = (sense_switch dev (rawTemp t) e)\<lparr>Pressure :=
                (scast (rawPress p) * (((1000 * 1000 * 1000 * 100) div 2048) :: int64)) div 2\<rparr>"
      by blast
    from t(1) k(1) have lg: "log' = l4
             @ concat (replicate k [read_ev dev (ctrl_reg2 (regs dev)) 1, TimerWait 5])
             @ [read_ev dev (ctrl_reg2 (regs dev)) 1]
             @ [read_ev dev (0x2b OR 0x80) 2]
             @ [read_ev dev (0x28 OR 0x80) 3]"
      by (simp add: polls_def)
    from t(2,3) have rr: "readReg dev (0x2b OR 0x80) [0, 0] (polls dev k l4 @ [rd2 dev])
               = (None, t, polls dev k l4 @ [rd2 dev, rdT dev])"
      "readReg dev (0x28 OR 0x80) (t @ [0]) (polls dev k l4 @ [rd2 dev, rdT dev])
               = (None, p, polls dev k l4 @ [rd2 dev, rdT dev, rdP dev])"
      by (simp_all add: k(1))
    from lg k(2) rr t(4) show "\<exists>k vs t p.
           log' = l4
             @ concat (replicate k [read_ev dev (ctrl_reg2 (regs dev)) 1, TimerWait 5])
             @ [read_ev dev (ctrl_reg2 (regs dev)) 1]
             @ [read_ev dev (0x2b OR 0x80) 2]
             @ [read_ev dev (0x28 OR 0x80) 3]
           \<and> poll_reads ctx dev 0b1 0 l4 k vs
           \<and> readReg dev (0x2b OR 0x80) [0, 0]
                 (polls dev k l4 @ [read_ev dev (ctrl_reg2 (regs dev)) 1])
               = (None, t, polls dev k l4 @ [read_ev dev (ctrl_reg2 (regs dev)) 1,
                                             read_ev dev (0x2b OR 0x80) 2])
           \<and> readReg dev (0x28 OR 0x80) (t @ [0])
                 (polls dev k l4 @ [read_ev dev (ctrl_reg2 (regs dev)) 1,
                                    read_ev dev (0x2b OR 0x80) 2])
               = (None, p, polls dev k l4 @ [read_ev dev (ctrl_reg2 (regs dev)) 1,
                                             read_ev dev (0x2b OR 0x80) 2,
                                             read_ev dev (0x28 OR 0x80) 3])
           \<and> e' = (sense_switch dev (rawTemp t) e)\<lparr>Pressure :=
                  (scast (rawPress p) * (((1000 * 1000 * 1000 * 100) div 2048) :: int64)) div 2\<rparr>"
      by blast
  qed
  have fwd: "(res_conf (regs dev) \<noteq> 0 \<longrightarrow> chipType dev = chipLPS25H \<or> chipType dev = chipLPS331A)
         \<and> conn_accepts dev (ctrl_reg1 (regs dev)) 0 log
         \<and> (res_conf (regs dev) \<noteq> 0 \<longrightarrow>
               conn_accepts dev (res_conf (regs dev))
                 (if chipType dev = chipLPS25H then 0b00001111 else 0b01111010)
                 (log @ [write_ev dev (ctrl_reg1 (regs dev)) 0]))
         \<and> conn_accepts dev (ctrl_reg1 (regs dev)) 0b10000100 (butlast (butlast l4))
         \<and> conn_accepts dev (ctrl_reg2 (regs dev)) 0b1 (butlast l4)
         \<and> busy_until ctx dev 0b1 vs l4 k
         \<and> conn_returns dev (ctrl_reg2 (regs dev)) (polls dev k l4) [vs k]
         \<and> vs k AND 0b1 = 0
         \<and> conn_returns dev (0x2b OR 0x80)
               (polls dev k l4 @ [read_ev dev (ctrl_reg2 (regs dev)) 1]) [t0, t1]
         \<and> conn_returns dev (0x28 OR 0x80)
               (polls dev k l4 @ [read_ev dev (ctrl_reg2 (regs dev)) 1,
                                  read_ev dev (0x2b OR 0x80) 2]) [b0, b1, b2]
        \<longrightarrow> Sense ctx dev e log
              = Some (None,
                      (sense_switch dev (rawTemp [t0, t1]) e)\<lparr>Pressure :=
                         (scast (rawPress [b0, b1, b2])
                            * (((1000 * 1000 * 1000 * 100) div 2048) :: int64)) div 2\<rparr>,
                      l4
                      @ concat (replicate k [read_ev dev (ctrl_reg2 (regs dev)) 1, TimerWait 5])
                      @ [read_ev dev (ctrl_reg2 (regs dev)) 1]
                      @ [read_ev dev (0x2b OR 0x80) 2]
                      @ [read_ev dev (0x28 OR 0x80) 3])"
  proof (rule impI, elim conjE)
    assume inv: "res_conf (regs dev) \<noteq> 0 \<longrightarrow> chipType dev = chipLPS25H \<or> chipType dev = chipLPS331A"
      and a1: "conn_accepts dev (ctrl_reg1 (regs dev)) 0 log"
      and a2: "res_conf (regs dev) \<noteq> 0 \<longrightarrow>
               conn_accepts dev (res_conf (regs dev))
                 (if chipType dev = chipLPS25H then 0b00001111 else 0b01111010)
                 (log @ [write_ev dev (ctrl_reg1 (regs dev)) 0])"
      and a3: "conn_accepts dev (ctrl_reg1 (regs dev)) 0b10000100 (butlast (butlast l4))"
      and a4: "conn_accepts dev (ctrl_reg2 (regs dev)) 0b1 (butlast l4)"
      and b: "busy_until ctx dev 0b1 vs l4 k"
      and r: "conn_returns dev (ctrl_reg2 (regs dev)) (polls dev k l4) [vs k]"
      and v: "vs k AND 0b1 = 0"
      and rt: "conn_returns dev (0x2b OR 0x80)
               (polls dev k l4 @ [read_ev dev (ctrl_reg2 (regs dev)) 1]) [t0, t1]"
      and rp: "conn_returns dev (0x28 OR 0x80)
               (polls dev k l4 @ [read_ev dev (ctrl_reg2 (regs dev)) 1,
                                  read_ev dev (0x2b OR 0x80) 2]) [b0, b1, b2]"
    have a3': "conn_accepts dev (ctrl_reg1 (regs dev)) 0b10000100
                 (log @ butlast (butlast (oneshot_writes dev)))"
      using a3 by (simp only: l4 butlast_log_oneshot_writes)
    have a4': "conn_accepts dev (ctrl_reg2 (regs dev)) 0b1 (log @ butlast (oneshot_writes dev))"
      using a4 by (simp only: l4 butlast_log_oneshot_writes)
    have m: "measureOneshot ctx dev log = Some (None, polls dev k l4 @ [rd2 dev])"
      unfolding l4
      using measureOneshot_returns [where ctx = ctx and vs = vs and k = k, OF inv a1 a2 a3' a4'
          b [unfolded l4] r [unfolded l4] v] .
    have s: "sense dev e (polls dev k l4 @ [rd2 dev]) = (None,
          (sense_switch dev (rawTemp [t0, t1]) e)\<lparr>Pressure :=
             (scast (rawPress [b0, b1, b2]) * (((1000 * 1000 * 1000 * 100) div 2048) :: int64)) div 2\<rparr>,
          (polls dev k l4 @ [rd2 dev]) @ [rdT dev, rdP dev])"
      using rp by (intro sense_returns [OF rt]) simp
    from m s assms(1) show "Sense ctx dev e log
              = Some (None,
                      (sense_switch dev (rawTemp [t0, t1]) e)\<lparr>Pressure :=
                         (scast (rawPress [b0, b1, b2])
                            * (((1000 * 1000 * 1000 * 100) div 2048) :: int64)) div 2\<rparr>,
                      l4
                      @ concat (replicate k [read_ev dev (ctrl_reg2 (regs dev)) 1, TimerWait 5])
                      @ [read_ev dev (ctrl_reg2 (regs dev)) 1]
                      @ [read_ev dev (0x2b OR 0x80) 2]
                      @ [read_ev dev (0x28 OR 0x80) 3])"
      by (simp add: Sense_def polls_def)
  qed
  from bwd fwd show ?thesis by (rule conjI)
qed

theorem Sense_oneshot_sequence_witness:
  "Sense Background ((LPS331A_dev (Playback oneshot_ops))\<lparr>oneshotMode := True\<rparr>)
         \<lparr>Temperature = 0, Pressure = 0\<rparr> []
       = Some (None, \<lparr>Temperature = 373150000000, Pressure = 101300000000000\<rparr>,
               [Tx [0x20, 0x00] 0, Tx [0x10, 0x7a] 0, Tx [0x20, 0x84] 0, Tx [0x21, 0x01] 0,
                Tx [0x21] 1, TimerWait 5, Tx [0x21] 1, Tx [0xab] 2, Tx [0xa8] 3])
   \<and> (\<exists>k vs. [Tx [0x20, 0x00] 0, Tx [0x10, 0x7a] 0, Tx [0x20, 0x84] 0, Tx [0x21, 0x01] 0,
                Tx [0x21] 1, TimerWait 5, Tx [0x21] 1, Tx [0xab] 2, Tx [0xa8] 3]
             = [Tx [0x20, 0x00] 0, Tx [0x10, 0x7a] 0, Tx [0x20, 0x84] 0, Tx [0x21, 0x01] 0]
               @ concat (replicate k [Tx [0x21] 1, TimerWait 5])
               @ [Tx [0x21] 1] @ [Tx [0xab] 2] @ [Tx [0xa8] 3]
           \<and> poll_reads Background ((LPS331A_dev (Playback oneshot_ops))\<lparr>oneshotMode := True\<rparr>)
                 0b1 0 [Tx [0x20, 0x00] 0, Tx [0x10, 0x7a] 0, Tx [0x20, 0x84] 0, Tx [0x21, 0x01] 0]
                 k vs)"
proof -
  define dev where "dev = (LPS331A_dev (Playback oneshot_ops))\<lparr>oneshotMode := True\<rparr>"
  define l4 where "l4 = [Tx [0x20, 0x00] 0, Tx [0x10, 0x7a] 0, Tx [0x20, 0x84] 0, Tx [0x21, 0x01] 0]"
  define vs :: "nat \<Rightarrow> byte" where "vs = (\<lambda>j. if j < 1 then 0x01 else 0x00)"
  define e0 where "e0 = \<lparr>Temperature = 0, Pressure = (0 :: int64)\<rparr>"
  note defs = dev_def LPS331A_dev_def Playback_def oneshot_ops_def write_ev_def read_ev_def
    chipLPS331A_def chipLPS25H_def conn_accepts_def conn_returns_def Background_def polls_def
  have h1: "oneshotMode dev" by (simp add: dev_def)
  have h2: "l4 = []
           @ [write_ev dev (ctrl_reg1 (regs dev)) 0]
           @ (if res_conf (regs dev) \<noteq> 0
              then [write_ev dev (res_conf (regs dev))
                      (if chipType dev = chipLPS25H then 0b00001111 else 0b01111010)]
              else [])
           @ [write_ev dev (ctrl_reg1 (regs dev)) 0b10000100]
           @ [write_ev dev (ctrl_reg2 (regs dev)) 0b1]"
    by (simp add: l4_def defs)
  have p1: "res_conf (regs dev) \<noteq> 0 \<longrightarrow> chipType dev = chipLPS25H \<or> chipType dev = chipLPS331A"
    by (simp add: defs)
  have p2: "conn_accepts dev (ctrl_reg1 (regs dev)) 0 []" by (simp add: defs)
  have p3: "res_conf (regs dev) \<noteq> 0 \<longrightarrow>
               conn_accepts dev (res_conf (regs dev))
                 (if chipType dev = chipLPS25H then 0b00001111 else 0b01111010)
                 ([] @ [write_ev dev (ctrl_reg1 (regs dev)) 0])"
    by (simp add: defs)
  have p4: "conn_accepts dev (ctrl_reg1 (regs dev)) 0b10000100 (butlast (butlast l4))"
    by (simp add: l4_def defs)
  have p5: "conn_accepts dev (ctrl_reg2 (regs dev)) 0b1 (butlast l4)"
    by (simp add: l4_def defs)
  have p6: "busy_until Background dev 0b1 vs l4 1"
    by (simp add: busy_until_def vs_def l4_def defs)
  have p7: "conn_returns dev (ctrl_reg2 (regs dev)) (polls dev 1 l4) [vs 1]"
    by (simp add: vs_def l4_def defs)
  have p8: "vs 1 AND 0b1 = 0" by (simp add: vs_def)
  have p9: "conn_returns dev (0x2b OR 0x80)
               (polls dev 1 l4 @ [read_ev dev (ctrl_reg2 (regs dev)) 1]) [0xd0, 0x6b]"
    by (simp add: l4_def defs)
  have p10: "conn_returns dev (0x28 OR 0x80)
               (polls dev 1 l4 @ [read_ev dev (ctrl_reg2 (regs dev)) 1,
                                  read_ev dev (0x2b OR 0x80) 2]) [0x00, 0x50, 0x3f]"
    by (simp add: l4_def defs)
  have rd: "(sense_switch dev (rawTemp [0xd0, 0x6b]) e0)\<lparr>Pressure :=
               (scast (rawPress [0x00, 0x50, 0x3f])
                  * (((1000 * 1000 * 1000 * 100) div 2048) :: int64)) div 2\<rparr>
            = \<lparr>Temperature = 373150000000, Pressure = 101300000000000\<rparr>"
    unfolding dev_def e0_def by code_simp
  have lg: "l4 @ concat (replicate 1 [read_ev dev (ctrl_reg2 (regs dev)) 1, TimerWait 5])
                      @ [read_ev dev (ctrl_reg2 (regs dev)) 1]
                      @ [read_ev dev (0x2b OR 0x80) 2]
                      @ [read_ev dev (0x28 OR 0x80) 3]
            = [Tx [0x20, 0x00] 0, Tx [0x10, 0x7a] 0, Tx [0x20, 0x84] 0, Tx [0x21, 0x01] 0,
                Tx [0x21] 1, TimerWait 5, Tx [0x21] 1, Tx [0xab] 2, Tx [0xa8] 3]"
    by (simp add: l4_def defs)
  note T = Sense_oneshot_sequence [where dev = dev and log = "[]" and ?l4.0 = l4
      and ctx = Background and e = e0 and vs = vs and k = 1 and ?t0.0 = "0xd0" and ?t1.0 = "0x6b"
      and ?b0.0 = "0x00" and ?b1.0 = "0x50" and ?b2.0 = "0x3f", OF h1 h2]
  from T [THEN conjunct2] p1 p2 p3 p4 p5 p6 p7 p8 p9 p10
  have S: "Sense Background dev e0 []
       = Some (None, \<lparr>Temperature = 373150000000, Pressure = 101300000000000\<rparr>,
               [Tx [0x20, 0x00] 0, Tx [0x10, 0x7a] 0, Tx [0x20, 0x84] 0, Tx [0x21, 0x01] 0,
                Tx [0x21] 1, TimerWait 5, Tx [0x21] 1, Tx [0xab] 2, Tx [0xa8] 3])"
    unfolding rd lg by blast
  from T [THEN conjunct1, rule_format, OF S]
  have "\<exists>k vs. [Tx [0x20, 0x00] 0, Tx [0x10, 0x7a] 0, Tx [0x20, 0x84] 0, Tx [0x21, 0x01] 0,
                Tx [0x21] 1, TimerWait 5, Tx [0x21] 1, Tx [0xab] 2, Tx [0xa8] 3]
             = l4 @ concat (replicate k [read_ev dev (ctrl_reg2 (regs dev)) 1, TimerWait 5])
               @ [read_ev dev (ctrl_reg2 (regs dev)) 1] @ [read_ev dev (0x2b OR 0x80) 2]
               @ [read_ev dev (0x28 OR 0x80) 3]
           \<and> poll_reads Background dev 0b1 0 l4 k vs"
    by blast
  then have "\<exists>k vs. [Tx [0x20, 0x00] 0, Tx [0x10, 0x7a] 0, Tx [0x20, 0x84] 0, Tx [0x21, 0x01] 0,
                Tx [0x21] 1, TimerWait 5, Tx [0x21] 1, Tx [0xab] 2, Tx [0xa8] 3]
             = l4 @ concat (replicate k [Tx [0x21] 1, TimerWait 5])
               @ [Tx [0x21] 1] @ [Tx [0xab] 2] @ [Tx [0xa8] 3]
           \<and> poll_reads Background dev 0b1 0 l4 k vs"
    by (simp add: read_ev_def dev_def LPS331A_dev_def)
  with S show ?thesis
    unfolding dev_def [symmetric] l4_def [symmetric] e0_def [symmetric] by blast
qed

subsection \<open>C6\<close>

text \<open>
  C6: when the temperature read succeeds and the pressure read returns the bytes
  \<open>b0, b1, b2\<close>, \<open>sense\<close> succeeds; the raw pressure is the unsigned 24-bit number
  \<open>b2 * 2^16 + b1 * 2^8 + b0\<close>, and the \<open>Pressure\<close> stored, read as a signed 64-bit
  number of nanopascal, is that number times \<open>10^11 / 4096\<close>, rounded down (the code
  multiplies by \<open>10^11 / 2048\<close> and halves). The bytes \<open>0x00, 0x50, 0x3f\<close> give
  \<open>0x3f5000\<close> and 101300 Pa.
\<close>

theorem sense_pressure_conversion:
  assumes "conn_returns dev (0x2b OR 0x80) log [t0, t1]"
    and "conn_returns dev (0x28 OR 0x80) (log @ [read_ev dev (0x2b OR 0x80) 2]) [b0, b1, b2]"
  shows "(\<exists>e'. sense dev e log
                = (None, e', log @ [read_ev dev (0x2b OR 0x80) 2, read_ev dev (0x28 OR 0x80) 3])
              \<and> sint (Pressure e')
                  = ((uint b2 * 2 ^ 16 + uint b1 * 2 ^ 8 + uint b0) * 10 ^ 11) div 4096)
       \<and> uint (rawPress [b0, b1, b2]) = uint b2 * 2 ^ 16 + uint b1 * 2 ^ 8 + uint b0"
proof (intro conjI)
  have r1: "readReg dev (0x2b OR 0x80) [0, 0] log = (None, [t0, t1], log @ [rdT dev])"
    using readReg_returns [OF assms(1), of "[0, 0]"] by (simp add: numeral_2_eq_2)
  have r2: "readReg dev (0x28 OR 0x80) [t0, t1, 0] (log @ [rdT dev])
              = (None, [b0, b1, b2], log @ [rdT dev, rdP dev])"
    using readReg_returns [OF assms(2), of "[t0, t1, 0]"] by (simp add: numeral_2_eq_2 numeral_3_eq_3)
  have "sense dev e log = (None,
          (sense_switch dev (rawTemp [t0, t1, 0]) e)\<lparr>Pressure :=
             (scast (rawPress [b0, b1, b2]) * (((1000 * 1000 * 1000 * 100) div 2048) :: int64)) div 2\<rparr>,
          log @ [rdT dev, rdP dev])"
    using r1 r2 by (simp add: sense_def Let_def)
  moreover have "sint ((scast (rawPress [b0, b1, b2]) * (((1000 * 1000 * 1000 * 100) div 2048) :: int64)) div 2)
      = ((uint b2 * 2 ^ 16 + uint b1 * 2 ^ 8 + uint b0) * 10 ^ 11) div 4096"
    using pressure_conv [OF rawPress_bound [of b0 b1 b2]] by (simp only: rawPress_uint) simp
  ultimately show "\<exists>e'. sense dev e log
                = (None, e', log @ [read_ev dev (0x2b OR 0x80) 2, read_ev dev (0x28 OR 0x80) 3])
              \<and> sint (Pressure e') = ((uint b2 * 2 ^ 16 + uint b1 * 2 ^ 8 + uint b0) * 10 ^ 11) div 4096"
    by simp
  show "uint (rawPress [b0, b1, b2]) = uint b2 * 2 ^ 16 + uint b1 * 2 ^ 8 + uint b0"
    by (simp add: rawPress_uint)
qed

theorem sense_pressure_conversion_witness:
  "(\<exists>e'. sense (LPS331A_dev (Playback [([0xab], [0xd0, 0x6b]), ([0xa8], [0x00, 0x50, 0x3f])]))
            \<lparr>Temperature = 0, Pressure = 0\<rparr> []
          = (None, e', [Tx [0xab] 2, Tx [0xa8] 3])
        \<and> sint (Pressure e') = 101300 * sint Pascal)
   \<and> uint (rawPress [0x00, 0x50, 0x3f]) = 0x3f5000"
proof -
  define dev where
    "dev = LPS331A_dev (Playback [([0xab], [0xd0, 0x6b]), ([0xa8], [0x00, 0x50, 0x3f])])"
  have h1: "conn_returns dev (0x2b OR 0x80) [] [0xd0, 0x6b]"
    by (simp add: conn_returns_def dev_def LPS331A_dev_def Playback_def)
  have h2: "conn_returns dev (0x28 OR 0x80) ([] @ [read_ev dev (0x2b OR 0x80) 2]) [0x00, 0x50, 0x3f]"
    by (simp add: conn_returns_def dev_def LPS331A_dev_def Playback_def read_ev_def)
  from sense_pressure_conversion [OF h1 h2, of "\<lparr>Temperature = 0, Pressure = 0\<rparr>"]
  show ?thesis
    by (simp add: dev_def LPS331A_dev_def read_ev_def Pascal_def)
qed

subsection \<open>C7\<close>

text \<open>
  C7: \<open>Init\<close> with mode \<open>OneShot\<close> performs no bus operation: it returns no error and
  only sets the one-shot flag of the handle. \<open>Init\<close> with mode \<open>Continuous\<close> leaves the
  handle as it is and performs exactly one bus operation, the write of the pair
  (primary control register, initial control byte); the register byte goes on the
  wire as it is whenever it is a 7-bit address (under SPI its top bit is cleared).
\<close>

theorem Init_bus_writes:
  "Init dev (Some \<lparr>Mode = OneShot\<rparr>) log = (None, dev\<lparr>oneshotMode := True\<rparr>, log)
   \<and> fst (snd (Init dev (Some \<lparr>Mode = Continuous\<rparr>) log)) = dev
   \<and> snd (snd (Init dev (Some \<lparr>Mode = Continuous\<rparr>) log))
       = log @ [write_ev dev (ctrl_reg1 (regs dev)) (initCmd dev)]
   \<and> (ctrl_reg1 (regs dev) < 0x80 \<longrightarrow>
        snd (snd (Init dev (Some \<lparr>Mode = Continuous\<rparr>) log))
          = log @ [Tx [ctrl_reg1 (regs dev), initCmd dev] 0])"
proof -
  obtain r l where w: "writeCommands dev [ctrl_reg1 (regs dev), initCmd dev] log = (r, l)"
    by (cases "writeCommands dev [ctrl_reg1 (regs dev), initCmd dev] log")
  with writeCommands_pair_log [of dev "ctrl_reg1 (regs dev)" "initCmd dev" log]
  have l: "l = log @ [write_ev dev (ctrl_reg1 (regs dev)) (initCmd dev)]" by simp
  have 1: "Init dev (Some \<lparr>Mode = OneShot\<rparr>) log = (None, dev\<lparr>oneshotMode := True\<rparr>, log)"
    by (simp add: Init_def)
  have 2: "fst (snd (Init dev (Some \<lparr>Mode = Continuous\<rparr>) log)) = dev"
    "snd (snd (Init dev (Some \<lparr>Mode = Continuous\<rparr>) log))
       = log @ [write_ev dev (ctrl_reg1 (regs dev)) (initCmd dev)]"
    using w l by (simp_all add: Init_def OneShot_def Continuous_def split: option.splits)
  from 1 2 show ?thesis by (simp add: write_ev_7bit)
qed

theorem Init_bus_writes_witness:
  "ctrl_reg1 (regs (LPS331A_dev (answers []))) < 0x80
   \<and> snd (snd (Init (LPS331A_dev (answers [])) (Some \<lparr>Mode = Continuous\<rparr>) []))
       = [Tx [0x20, 0xe0] 0]"
proof -
  have h: "ctrl_reg1 (regs (LPS331A_dev (answers []))) < 0x80"
    by (simp add: LPS331A_dev_def)
  from Init_bus_writes [of "LPS331A_dev (answers [])" "[]"] h
  have "snd (snd (Init (LPS331A_dev (answers [])) (Some \<lparr>Mode = Continuous\<rparr>) []))
       = [] @ [Tx [ctrl_reg1 (regs (LPS331A_dev (answers []))),
                   initCmd (LPS331A_dev (answers []))] 0]"
    by blast
  with h show ?thesis by (simp add: LPS331A_dev_def)
qed

subsection \<open>C8\<close>

text \<open>
  C8: at any round of the poll loop (after \<open>k\<close> rounds that found the flag set), if
  the read finds the flag still set and the context is done in the wait that follows,
  \<open>setAndCheckCtrlReg2\<close> returns the error \<open>setAndCheckCtrlReg2: %w\<close> wrapping
  \<open>ctx.Err()\<close>, and that wait is the last event: no bus transaction follows it.
\<close>

theorem setAndCheckCtrlReg2_cancelled:
  assumes "conn_accepts dev (ctrl_reg2 (regs dev)) val log"
    and "log1 = log @ [write_ev dev (ctrl_reg2 (regs dev)) val]"
    and "busy_until ctx dev val vs log1 k"
    and "conn_returns dev (ctrl_reg2 (regs dev)) (polls dev k log1) [vs k]" "vs k AND val \<noteq> 0"
    and "ctx (polls dev k log1 @ [read_ev dev (ctrl_reg2 (regs dev)) 1]) = Some cerr"
  shows "setAndCheckCtrlReg2 ctx dev val log
           = Some (Some (Wrapf ''setAndCheckCtrlReg2: %w'' [] cerr),
                   polls dev k log1 @ [read_ev dev (ctrl_reg2 (regs dev)) 1, TimerWait 5])"
proof -
  obtain b' where b': "length b' = 1"
    "setAndCheckCtrlReg2_loop ctx dev val [0] log1
       = setAndCheckCtrlReg2_loop ctx dev val b' (polls dev k log1)"
    using loop_unroll [OF assms(3), of "[0]"] by auto
  have "setAndCheckCtrlReg2_loop ctx dev val b' (polls dev k log1)
      = Some (Some (Wrapf ''setAndCheckCtrlReg2: %w'' [] cerr), polls dev k log1 @ [rd2 dev, TimerWait 5])"
    by (subst setAndCheckCtrlReg2_loop.simps)
       (simp add: body_cancel [where ctx = ctx, OF assms(4,5,6) b'(1)])
  with b'(2) show ?thesis
    by (simp add: setAndCheckCtrlReg2_accepts [OF assms(1)] assms(2))
qed

theorem setAndCheckCtrlReg2_cancelled_witness:
  "setAndCheckCtrlReg2 (cancelledAfter 4) (LPS331A_dev (answers [0x01])) 0b1 []
     = Some (Some (Wrapf ''setAndCheckCtrlReg2: %w'' [] Canceled),
             [Tx [0x21, 1] 0, Tx [0x21] 1, TimerWait 5, Tx [0x21] 1, TimerWait 5])"
proof -
  define dev where "dev = LPS331A_dev (answers [0x01])"
  have a: "conn_accepts dev (ctrl_reg2 (regs dev)) 1 []"
    by (simp add: conn_accepts_def dev_def LPS331A_dev_def answers_def)
  have l: "[Tx [0x21, 1] 0] = [] @ [write_ev dev (ctrl_reg2 (regs dev)) 1]"
    by (simp add: write_ev_def dev_def LPS331A_dev_def)
  have b: "busy_until (cancelledAfter 4) dev 1 (\<lambda>j. 1) [Tx [0x21, 1] 0] 1"
    by (simp add: busy_until_def conn_returns_def dev_def LPS331A_dev_def answers_def
        cancelledAfter_def polls_def)
  have r: "conn_returns dev (ctrl_reg2 (regs dev)) (polls dev 1 [Tx [0x21, 1] 0]) [1]"
    by (simp add: conn_returns_def dev_def LPS331A_dev_def answers_def)
  have v: "(1 :: byte) AND 1 \<noteq> 0" by simp
  have c: "cancelledAfter 4 (polls dev 1 [Tx [0x21, 1] 0] @ [read_ev dev (ctrl_reg2 (regs dev)) 1])
             = Some Canceled"
    by (simp add: cancelledAfter_def polls_def)
  from setAndCheckCtrlReg2_cancelled [OF a l b r v c]
  show ?thesis
    by (simp add: polls_def read_ev_def dev_def LPS331A_dev_def)
qed

subsection \<open>C9\<close>

text \<open>
  C9: on an LPS331A, \<open>SWReset\<close> always returns (it does not poll). A software reset
  that succeeds has issued exactly: the write of \<open>0b100\<close> to the secondary control
  register, a 5 ms wait, the write of 0 to that register, a 5 ms wait, and a read of 5
  bytes at \<open>0x28 | 0x80\<close>. It does succeed when the bus accepts the two writes and
  answers the read and the context is not cancelled in either wait; when the context
  is cancelled in one of the two waits, it returns the context's error, wrapped, and
  that wait is the last event. On an LPS22H or LPS25H, \<open>SWReset\<close> is
  \<open>setAndCheckCtrlReg2\<close> with the bit \<open>0b100\<close> (its error wrapped), so a reset that
  succeeds has written that bit to the secondary control register and polled it.
\<close>

theorem SWReset_sequence:
  "(chipType dev = chipLPS331A \<longrightarrow>
      SWReset ctx dev log \<noteq> None
      \<and> (\<forall>log'. SWReset ctx dev log = Some (None, log') \<longrightarrow> log' = log @ swreset_events dev)
      \<and> (conn_accepts dev (ctrl_reg2 (regs dev)) 0b100 log
          \<and> ctx (log @ take 1 (swreset_events dev)) = None
          \<and> conn_accepts dev (ctrl_reg2 (regs dev)) 0 (log @ take 2 (swreset_events dev))
          \<and> ctx (log @ take 3 (swreset_events dev)) = None
          \<and> conn_returns dev (0x28 OR 0x80) (log @ take 4 (swreset_events dev)) bs
          \<and> length bs = 5
          \<longrightarrow> SWReset ctx dev log = Some (None, log @ swreset_events dev))
      \<and> (conn_accepts dev (ctrl_reg2 (regs dev)) 0b100 log
          \<and> ctx (log @ take 1 (swreset_events dev)) = Some cerr
          \<longrightarrow> SWReset ctx dev log
                = Some (Some (Wrapf ''swResetLPS331: failed to wait process SWRESET: %w'' [] cerr),
                        log @ take 2 (swreset_events dev)))
      \<and> (conn_accepts dev (ctrl_reg2 (regs dev)) 0b100 log
          \<and> ctx (log @ take 1 (swreset_events dev)) = None
          \<and> conn_accepts dev (ctrl_reg2 (regs dev)) 0 (log @ take 2 (swreset_events dev))
          \<and> ctx (log @ take 3 (swreset_events dev)) = Some cerr
          \<longrightarrow> SWReset ctx dev log
                = Some (Some (Wrapf ''swResetLPS331: failed to wait clearing SWRESET: %w'' [] cerr),
                        log @ take 4 (swreset_events dev))))
   \<and> (chipType dev = chipLPS22H \<or> chipType dev = chipLPS25H \<longrightarrow>
        SWReset ctx dev log
          = map_option
              (\<lambda>(r, l). (map_option (\<lambda>err. wrap dev (Wrapf ''SWReset: failed :%w'' [] err)) r, l))
              (setAndCheckCtrlReg2 ctx dev 0b100 log)
        \<and> (\<forall>log'. SWReset ctx dev log = Some (None, log') \<longrightarrow>
              (\<exists>k. log' = polls dev k (log @ [write_ev dev (ctrl_reg2 (regs dev)) 0b100])
                              @ [read_ev dev (ctrl_reg2 (regs dev)) 1])))"
proof (intro conjI impI allI)
  assume "chipType dev = chipLPS331A"
  then show "SWReset ctx dev log \<noteq> None" by (simp add: SWReset_def)
next
  fix log'
  assume "chipType dev = chipLPS331A" "SWReset ctx dev log = Some (None, log')"
  then have "swResetLPS331 ctx dev log = (None, log')" by (simp add: SWReset_def)
  from swResetLPS331_success_log [OF this]
  show "log' = log @ swreset_events dev" by (simp add: swreset_events_def)
next
  assume c: "chipType dev = chipLPS331A"
    and h: "conn_accepts dev (ctrl_reg2 (regs dev)) 0b100 log
          \<and> ctx (log @ take 1 (swreset_events dev)) = None
          \<and> conn_accepts dev (ctrl_reg2 (regs dev)) 0 (log @ take 2 (swreset_events dev))
          \<and> ctx (log @ take 3 (swreset_events dev)) = None
          \<and> conn_returns dev (0x28 OR 0x80) (log @ take 4 (swreset_events dev)) bs
          \<and> length bs = 5"
  from h have "swResetLPS331 ctx dev log = (None, log @ swreset_events dev)"
    unfolding take_swreset_events swreset_events_def
    by (intro swResetLPS331_succeeds [of dev log ctx bs]) simp_all
  with c show "SWReset ctx dev log = Some (None, log @ swreset_events dev)"
    by (simp add: SWReset_def)
next
  assume c: "chipType dev = chipLPS331A"
    and h: "conn_accepts dev (ctrl_reg2 (regs dev)) 0b100 log
          \<and> ctx (log @ take 1 (swreset_events dev)) = Some cerr"
  from h have "swResetLPS331 ctx dev log
      = (Some (Wrapf ''swResetLPS331: failed to wait process SWRESET: %w'' [] cerr),
         log @ take 2 (swreset_events dev))"
    unfolding take_swreset_events
    by (intro swResetLPS331_cancelled_1) simp_all
  with c show "SWReset ctx dev log
                = Some (Some (Wrapf ''swResetLPS331: failed to wait process SWRESET: %w'' [] cerr),
                        log @ take 2 (swreset_events dev))"
    by (simp add: SWReset_def)
next
  assume c: "chipType dev = chipLPS331A"
    and h: "conn_accepts dev (ctrl_reg2 (regs dev)) 0b100 log
          \<and> ctx (log @ take 1 (swreset_events dev)) = None
          \<and> conn_accepts dev (ctrl_reg2 (regs dev)) 0 (log @ take 2 (swreset_events dev))
          \<and> ctx (log @ take 3 (swreset_events dev)) = Some cerr"
  from h have "swResetLPS331 ctx dev log
      = (Some (Wrapf ''swResetLPS331: failed to wait clearing SWRESET: %w'' [] cerr),
         log @ take 4 (swreset_events dev))"
    unfolding take_swreset_events
    by (intro swResetLPS331_cancelled_2) simp_all
  with c show "SWReset ctx dev log
                = Some (Some (Wrapf ''swResetLPS331: failed to wait clearing SWRESET: %w'' [] cerr),
                        log @ take 4 (swreset_events dev))"
    by (simp add: SWReset_def)
next
  assume c: "chipType dev = chipLPS22H \<or> chipType dev = chipLPS25H"
  then have n: "chipType dev \<noteq> chipLPS331A"
    by (auto simp add: chipLPS22H_def chipLPS25H_def chipLPS331A_def)
  with c show "SWReset ctx dev log
          = map_option
              (\<lambda>(r, l). (map_option (\<lambda>err. wrap dev (Wrapf ''SWReset: failed :%w'' [] err)) r, l))
              (setAndCheckCtrlReg2 ctx dev 0b100 log)"
    by (auto simp add: SWReset_def split: option.splits)
next
  fix log'
  assume c: "chipType dev = chipLPS22H \<or> chipType dev = chipLPS25H"
    and s: "SWReset ctx dev log = Some (None, log')"
  from c have n: "chipType dev \<noteq> chipLPS331A"
    by (auto simp add: chipLPS22H_def chipLPS25H_def chipLPS331A_def)
  with c s have "setAndCheckCtrlReg2 ctx dev 0b100 log = Some (None, log')"
    by (auto simp add: SWReset_def split: option.splits)
  from setAndCheckCtrlReg2_success_log [OF this]
  show "\<exists>k. log' = polls dev k (log @ [write_ev dev (ctrl_reg2 (regs dev)) 0b100])
                              @ [read_ev dev (ctrl_reg2 (regs dev)) 1]" .
qed

theorem SWReset_sequence_witness:
  "SWReset Background
       (LPS331A_dev (Playback [([0x21, 4], []), ([0x21, 0], []), ([0xa8], [0, 0, 0, 0, 0])])) []
     = Some (None, [Tx [0x21, 4] 0, TimerWait 5, Tx [0x21, 0] 0, TimerWait 5, Tx [0xa8] 5])
   \<and> SWReset (cancelledAfter 1) (LPS331A_dev (answers [])) []
       = Some (Some (Wrapf ''swResetLPS331: failed to wait process SWRESET: %w'' [] Canceled),
               [Tx [0x21, 4] 0, TimerWait 5])
   \<and> SWReset (cancelledAfter 3) (LPS331A_dev (answers [])) []
       = Some (Some (Wrapf ''swResetLPS331: failed to wait clearing SWRESET: %w'' [] Canceled),
               [Tx [0x21, 4] 0, TimerWait 5, Tx [0x21, 0] 0, TimerWait 5])
   \<and> SWReset Background
         (LPS25H_dev (Playback [([0x21, 4], []), ([0x21], [0x04]), ([0x21], [0x00])])) []
       = Some (None, [Tx [0x21, 4] 0, Tx [0x21] 1, TimerWait 5, Tx [0x21] 1])
   \<and> (\<exists>k. [Tx [0x21, 4] 0, Tx [0x21] 1, TimerWait 5, Tx [0x21] 1]
          = [Tx [0x21, 4] 0] @ concat (replicate k [Tx [0x21] 1, TimerWait 5]) @ [Tx [0x21] 1])"
proof -
  define dev1 where
    "dev1 = LPS331A_dev (Playback [([0x21, 4], []), ([0x21, 0], []), ([0xa8], [0, 0, 0, 0, 0])])"
  define dev2 where
    "dev2 = LPS25H_dev (Playback [([0x21, 4], []), ([0x21], [0x04]), ([0x21], [0x00])])"
  define dev3 where "dev3 = LPS331A_dev (answers [])"
  have ev1: "swreset_events dev1
      = [Tx [0x21, 4] 0, TimerWait 5, Tx [0x21, 0] 0, TimerWait 5, Tx [0xa8] 5]"
    by (simp add: swreset_events_def write_ev_def read_ev_def dev1_def LPS331A_dev_def)
  have ev3: "swreset_events dev3
      = [Tx [0x21, 4] 0, TimerWait 5, Tx [0x21, 0] 0, TimerWait 5, Tx [0xa8] 5]"
    by (simp add: swreset_events_def write_ev_def read_ev_def dev3_def LPS331A_dev_def)
  have c1: "chipType dev1 = chipLPS331A" by (simp add: dev1_def LPS331A_dev_def)
  have c3: "chipType dev3 = chipLPS331A" by (simp add: dev3_def LPS331A_dev_def)
  have p1: "conn_accepts dev1 (ctrl_reg2 (regs dev1)) 0b100 []
          \<and> Background ([] @ take 1 (swreset_events dev1)) = None
          \<and> conn_accepts dev1 (ctrl_reg2 (regs dev1)) 0 ([] @ take 2 (swreset_events dev1))
          \<and> Background ([] @ take 3 (swreset_events dev1)) = None
          \<and> conn_returns dev1 (0x28 OR 0x80) ([] @ take 4 (swreset_events dev1)) [0, 0, 0, 0, 0]
          \<and> length [0 :: byte, 0, 0, 0, 0] = 5"
    unfolding ev1
    by (simp add: conn_accepts_def conn_returns_def Background_def dev1_def
        LPS331A_dev_def Playback_def)
  from SWReset_sequence [of dev1 Background "[]" "[0, 0, 0, 0, 0]"] c1 p1
  have 1: "SWReset Background dev1 [] = Some (None, [] @ swreset_events dev1)"
    by blast
  have p3: "conn_accepts dev3 (ctrl_reg2 (regs dev3)) 0b100 []
          \<and> cancelledAfter 1 ([] @ take 1 (swreset_events dev3)) = Some Canceled"
    unfolding ev3
    by (simp add: conn_accepts_def cancelledAfter_def dev3_def LPS331A_dev_def answers_def)
  from SWReset_sequence [of dev3 "cancelledAfter 1" "[]" _ Canceled] c3 p3
  have 3: "SWReset (cancelledAfter 1) dev3 []
       = Some (Some (Wrapf ''swResetLPS331: failed to wait process SWRESET: %w'' [] Canceled),
               [] @ take 2 (swreset_events dev3))"
    by blast
  have p4: "conn_accepts dev3 (ctrl_reg2 (regs dev3)) 0b100 []
          \<and> cancelledAfter 3 ([] @ take 1 (swreset_events dev3)) = None
          \<and> conn_accepts dev3 (ctrl_reg2 (regs dev3)) 0 ([] @ take 2 (swreset_events dev3))
          \<and> cancelledAfter 3 ([] @ take 3 (swreset_events dev3)) = Some Canceled"
    unfolding ev3
    by (simp add: conn_accepts_def cancelledAfter_def dev3_def LPS331A_dev_def answers_def)
  from SWReset_sequence [of dev3 "cancelledAfter 3" "[]" _ Canceled] c3 p4
  have 4: "SWReset (cancelledAfter 3) dev3 []
       = Some (Some (Wrapf ''swResetLPS331: failed to wait clearing SWRESET: %w'' [] Canceled),
               [] @ take 4 (swreset_events dev3))"
    by blast
  have c2: "chipType dev2 = chipLPS22H \<or> chipType dev2 = chipLPS25H"
    by (simp add: dev2_def LPS25H_dev_def)
  have s2: "SWReset Background dev2 []
       = Some (None, [Tx [0x21, 4] 0, Tx [0x21] 1, TimerWait 5, Tx [0x21] 1])"
    unfolding dev2_def by code_simp
  from SWReset_sequence [of dev2 Background "[]"] c2 s2
  have "\<exists>k. [Tx [0x21, 4] 0, Tx [0x21] 1, TimerWait 5, Tx [0x21] 1]
          = polls dev2 k ([] @ [write_ev dev2 (ctrl_reg2 (regs dev2)) 0b100])
              @ [read_ev dev2 (ctrl_reg2 (regs dev2)) 1]"
    by blast
  then have 2: "\<exists>k. [Tx [0x21, 4] 0, Tx [0x21] 1, TimerWait 5, Tx [0x21] 1]
          = [Tx [0x21, 4] 0] @ concat (replicate k [Tx [0x21] 1, TimerWait 5]) @ [Tx [0x21] 1]"
    by (simp add: polls_def write_ev_def read_ev_def dev2_def LPS25H_dev_def)
  from 1 3 4 s2 2 show ?thesis
    unfolding ev1 ev3 by (simp add: dev1_def dev2_def dev3_def)
qed

subsection \<open>C10\<close>

text \<open>
  C10: every handle that \<open>NewI2C\<close> or \<open>NewSPI\<close> returns satisfies the register-map
  invariant (a resolution-configuration register address other than 0 only on an
  LPS331A or LPS25H); \<open>Init\<close>, the only operation that changes a handle after
  construction, preserves it; and on a handle that satisfies it \<open>measureOneshot\<close> never
  returns the \<open>unknown chip type\<close> error of its averaging-code dispatch.
\<close>

theorem res_conf_invariant:
  "(NewI2C b addr opts log = (Some dev, r, log') \<longrightarrow> res_conf_inv dev)
   \<and> (NewSPI p opts log = (Some dev, r, log') \<longrightarrow> res_conf_inv dev)
   \<and> (res_conf_inv dev \<longrightarrow> res_conf_inv (fst (snd (Init dev opts' log))))
   \<and> (res_conf_inv dev \<longrightarrow>
        (\<forall>args l. measureOneshot ctx dev log
                    \<noteq> Some (Some (Errorf ''measureOneshot: unknown chip type: %v'' args), l)))"
proof (intro conjI impI allI)
  assume "NewI2C b addr opts log = (Some dev, r, log')"
  then have "\<exists>dev0. makeDev dev0 opts log = (None, dev, log')"
    by (auto simp add: NewI2C_def split: if_splits option.splits prod.splits)
  then show "res_conf_inv dev" by (auto dest: makeDev_res_conf_inv)
next
  assume "NewSPI p opts log = (Some dev, r, log')"
  then have "\<exists>dev0. makeDev dev0 opts log = (None, dev, log')"
    by (auto simp add: NewSPI_def split: sum.splits option.splits prod.splits)
  then show "res_conf_inv dev" by (auto dest: makeDev_res_conf_inv)
next
  assume "res_conf_inv dev"
  then show "res_conf_inv (fst (snd (Init dev opts' log)))" by (rule Init_res_conf_inv)
next
  fix args l
  assume "res_conf_inv dev"
  then show "measureOneshot ctx dev log
                    \<noteq> Some (Some (Errorf ''measureOneshot: unknown chip type: %v'' args), l)"
    by (rule measureOneshot_not_unknown)
qed

theorem res_conf_invariant_witness:
  "NewI2C (\<lambda>addr. answers [0xbb]) 0x5c (Some \<lparr>Mode = OneShot\<rparr>) []
     = (Some ((LPS331A_dev (answers [0xbb]))\<lparr>oneshotMode := True\<rparr>), None,
        [Tx [0x0F] 1, Tx [0x20] 1, Tx [0x21] 1, Tx [0x10] 1])
   \<and> res_conf_inv ((LPS331A_dev (answers [0xbb]))\<lparr>oneshotMode := True\<rparr>)
   \<and> res_conf_inv (fst (snd (Init ((LPS331A_dev (answers [0xbb]))\<lparr>oneshotMode := True\<rparr>)
                                 (Some \<lparr>Mode = Continuous\<rparr>) [])))
   \<and> measureOneshot Background ((LPS331A_dev (answers [0xbb]))\<lparr>oneshotMode := True\<rparr>) []
       \<noteq> Some (Some (Errorf ''measureOneshot: unknown chip type: %v'' [B 0xbb]), [])"
proof -
  define dev where "dev = (LPS331A_dev (answers [0xbb]))\<lparr>oneshotMode := True\<rparr>"
  have h: "NewI2C (\<lambda>addr. answers [0xbb]) 0x5c (Some \<lparr>Mode = OneShot\<rparr>) []
     = (Some dev, None, [Tx [0x0F] 1, Tx [0x20] 1, Tx [0x21] 1, Tx [0x10] 1])"
    by (simp add: dev_def NewI2C_def makeDev_def makeDev_switch_def ShowCtrls_def Init_def
        readReg_def conn_Tx_def new_Dev_def answers_def LPS331A_dev_def OneShot_def
        chipLPS331A_def)
  from res_conf_invariant [where b = "\<lambda>addr. answers [0xbb]" and addr = "0x5c"
      and opts = "Some \<lparr>Mode = OneShot\<rparr>" and log = "[]" and dev = dev and r = None
      and log' = "[Tx [0x0F] 1, Tx [0x20] 1, Tx [0x21] 1, Tx [0x10] 1]"
      and opts' = "Some \<lparr>Mode = Continuous\<rparr>" and ctx = Background] h
  have i: "res_conf_inv dev"
    and "res_conf_inv dev \<longrightarrow> res_conf_inv (fst (snd (Init dev (Some \<lparr>Mode = Continuous\<rparr>) [])))"
    and "res_conf_inv dev \<longrightarrow>
          (\<forall>args l. measureOneshot Background dev []
                    \<noteq> Some (Some (Errorf ''measureOneshot: unknown chip type: %v'' args), l))"
    by blast+
  with h show ?thesis by (simp add: dev_def)
qed

end
